theory Spec2Isabelle
  imports Complex_Main
begin

section \<open>Python values and strings\<close>

text \<open>
  A Python \<open>str\<close> is modelled as a \<open>string\<close>, the list of the bytes of its UTF-8
  encoding. Every keyword the program searches for is plain ASCII, and lowercasing a
  non-ASCII character never yields a character that completes one of those keywords, so
  \<open>lower\<close> below lowercases the letters A..Z and leaves every other byte alone. That is
  also exactly what SQLite's built-in \<open>LOWER()\<close> does.

  A raised exception is represented by its message \<open>str(e)\<close>, the only thing the
  program ever reads from it.
\<close>

type_synonym exn = string

type_synonym 'v dict = "(string \<times> 'v) list"

datatype pyval =
    PyNone
  | PyBool bool
  | PyInt int
  | PyFloat real
  | PyStr string
  | PyList "pyval list"
  | PyDict "(string \<times> pyval) list"

definition lower_char :: "char \<Rightarrow> char" where
  "lower_char c =
     (if (65::nat) \<le> of_char c \<and> of_char c \<le> (90::nat)
      then (case c of Char b0 b1 b2 b3 b4 b5 b6 b7 \<Rightarrow> Char b0 b1 b2 b3 b4 True b6 b7)
      else c)"

definition lower :: "string \<Rightarrow> string" where
  "lower s = map lower_char s"

fun startswith :: "string \<Rightarrow> string \<Rightarrow> bool" where
  "startswith s [] = True"
| "startswith [] (p # ps) = False"
| "startswith (c # cs) (p # ps) = (c = p \<and> startswith cs ps)"

text \<open>\<open>str_in needle s\<close> is Python's \<open>needle in s\<close> on strings.\<close>

fun str_in :: "string \<Rightarrow> string \<Rightarrow> bool" where
  "str_in needle [] = (needle = [])"
| "str_in needle (c # cs) = (startswith (c # cs) needle \<or> str_in needle cs)"

text \<open>\<open>any_in keywords s\<close> is \<open>any(keyword in s for keyword in keywords)\<close>.\<close>

definition any_in :: "string list \<Rightarrow> string \<Rightarrow> bool" where
  "any_in keywords s = list_ex (\<lambda>keyword. str_in keyword s) keywords"

section \<open>crew\_supervisor.py: the normalizers\<close>

definition parse_routing_decision :: "string \<Rightarrow> string" where
  "parse_routing_decision output =
     (let output_lower = lower output in
      if str_in ''both'' output_lower \<or> str_in ''mcp_and_rag'' output_lower then ''BOTH''
      else if str_in ''mcp'' output_lower \<or> str_in ''database'' output_lower then ''MCP''
      else if str_in ''rag'' output_lower \<or> str_in ''document'' output_lower then ''RAG''
      else ''BOTH'')"

definition accept_keywords :: "string list" where
  "accept_keywords =
     [''accept'', ''sufficient'', ''complete'', ''correct'', ''accurate'',
      ''found'', ''yes'', ''good'', ''adequate'', ''satisfactory'']"

definition retry_keywords :: "string list" where
  "retry_keywords =
     [''retry'', ''insufficient'', ''incomplete'', ''missing'', ''try again'',
      ''not found'', ''no'', ''failed'']"

definition parse_validation_result :: "string \<Rightarrow> string dict" where
  "parse_validation_result output =
     (let output_lower = lower output in
      if any_in accept_keywords output_lower
      then [(''status'', ''ACCEPT''), (''reason'', output)]
      else if any_in retry_keywords output_lower
      then (if str_in ''both'' output_lower then [(''status'', ''RETRY''), (''next_agent'', ''BOTH'')]
            else if str_in ''mcp'' output_lower then [(''status'', ''RETRY''), (''next_agent'', ''MCP'')]
            else if str_in ''rag'' output_lower then [(''status'', ''RETRY''), (''next_agent'', ''RAG'')]
            else [(''status'', ''RETRY''), (''next_agent'', ''BOTH'')])
      else if str_in ''engine number'' output_lower \<and> str_in ''en12345xyz'' output_lower
      then [(''status'', ''ACCEPT''), (''reason'', ''Answer contains requested information'')]
      else [(''status'', ''ACCEPT''), (''reason'', ''Validation unclear, accepting answer'')])"

text \<open>
  The words of the specification: a reply \<^emph>\<open>mentions\<close> a term when the term occurs
  somewhere in the lowercased reply.
\<close>

definition mentions :: "string \<Rightarrow> string \<Rightarrow> bool" where
  "mentions term output = (\<exists>before after. lower output = before @ term @ after)"

section \<open>crew\_supervisor.py: process\_query\<close>

text \<open>
  Every \<open>kickoff\<close> of a crew asks a language model and is outside the program: it
  answers with a text or raises. The environment \<open>env\<close> gives the answer of every
  call the program can make; the calls of the loop are indexed by the attempt in which
  they are made, since the same question may be answered differently each time. Opening
  the two tool connections (\<open>with MCPServerAdapter(...)\<close>) may raise as well.
\<close>

record env =
  person_tools :: "exn option"
  bank_tools :: "exn option"
  routing_kickoff :: "string \<Rightarrow> exn + string"
  mcp_kickoff :: "int \<Rightarrow> string \<Rightarrow> exn + string"
  rag_kickoff :: "int \<Rightarrow> string \<Rightarrow> exn + string"
  synthesis_kickoff :: "int \<Rightarrow> string \<Rightarrow> (string \<times> string) list \<Rightarrow> exn + string"
  validation_kickoff :: "int \<Rightarrow> string \<Rightarrow> string \<Rightarrow> exn + string"

text \<open>
  The calls made to the outside, in the order they are made: the trace of a run. A
  synthesis call carries the worker results it was given, a validation call the answer
  it was asked to judge.
\<close>

datatype event =
    Open_person_tools
  | Open_bank_tools
  | Ran_routing
  | Ran_mcp int
  | Ran_rag int
  | Ran_synthesis int "(string \<times> string) list"
  | Ran_validation int string

text \<open>What the environment answers to a call (\<open>Inl\<close>: the call raises).\<close>

fun reply :: "env \<Rightarrow> string \<Rightarrow> event \<Rightarrow> exn + string" where
  "reply env query Open_person_tools = (case person_tools env of Some e \<Rightarrow> Inl e | None \<Rightarrow> Inr [])"
| "reply env query Open_bank_tools = (case bank_tools env of Some e \<Rightarrow> Inl e | None \<Rightarrow> Inr [])"
| "reply env query Ran_routing = routing_kickoff env query"
| "reply env query (Ran_mcp attempt) = mcp_kickoff env attempt query"
| "reply env query (Ran_rag attempt) = rag_kickoff env attempt query"
| "reply env query (Ran_synthesis attempt worker_results) =
     synthesis_kickoff env attempt query worker_results"
| "reply env query (Ran_validation attempt current_answer) =
     validation_kickoff env attempt query current_answer"

text \<open>
  A piece of the body of the \<open>try\<close> block: it raises or yields a value, and it has made
  some calls. An exception leaves the block at once, so what follows a raising step is
  not run.
\<close>

type_synonym 'a comp = "(exn + 'a) \<times> event list"

definition ret :: "'a \<Rightarrow> 'a comp" where
  "ret x = (Inr x, [])"

definition kickoff :: "env \<Rightarrow> string \<Rightarrow> event \<Rightarrow> string comp" where
  "kickoff env query ev = (reply env query ev, [ev])"

definition bind_comp :: "'a comp \<Rightarrow> ('a \<Rightarrow> 'b comp) \<Rightarrow> 'b comp" where
  "bind_comp m f =
     (case m of
        (Inl e, t) \<Rightarrow> (Inl e, t)
      | (Inr x, t) \<Rightarrow> (case f x of (r, t') \<Rightarrow> (r, t @ t')))"

definition max_attempts :: int where
  "max_attempts = 3"

text \<open>The two \<open>if route == ...\<close> blocks that fill \<open>worker_results\<close>.\<close>

definition execute_workers :: "env \<Rightarrow> string \<Rightarrow> string \<Rightarrow> int \<Rightarrow> ((string \<times> string) list) comp" where
  "execute_workers env query route attempt =
     bind_comp
       (if route = ''MCP'' \<or> route = ''BOTH''
        then bind_comp (kickoff env query (Ran_mcp attempt))
               (\<lambda>mcp_result. ret [(''MCP'', mcp_result)])
        else ret [])
       (\<lambda>worker_results.
          if route = ''RAG'' \<or> route = ''BOTH''
          then bind_comp (kickoff env query (Ran_rag attempt))
                 (\<lambda>rag_result. ret (worker_results @ [(''RAG'', rag_result)]))
          else ret worker_results)"

text \<open>The synthesis block: it yields \<open>current_answer\<close>.\<close>

definition synthesize :: "env \<Rightarrow> string \<Rightarrow> int \<Rightarrow> (string \<times> string) list \<Rightarrow> string comp" where
  "synthesize env query attempt worker_results =
     (if length worker_results > 1
      then kickoff env query (Ran_synthesis attempt worker_results)
      else if worker_results \<noteq> []
      then ret (snd (hd worker_results))
      else ret ''No agents were executed'')"

text \<open>One pass through the body of the loop, up to the parsed validation.\<close>

definition run_attempt :: "env \<Rightarrow> string \<Rightarrow> string \<Rightarrow> int \<Rightarrow> (string \<times> string dict) comp" where
  "run_attempt env query route attempt =
     bind_comp (execute_workers env query route attempt) (\<lambda>worker_results.
     bind_comp (synthesize env query attempt worker_results) (\<lambda>current_answer.
     bind_comp (kickoff env query (Ran_validation attempt current_answer)) (\<lambda>validation_result.
       ret (current_answer, parse_validation_result validation_result))))"

text \<open>
  The \<open>while attempt <= max_attempts\<close> loop. It yields \<open>final_answer\<close> (\<open>None\<close> as
  long as nothing was accepted) and the value of \<open>attempt\<close> when the loop is left.
\<close>

function attempt_loop :: "env \<Rightarrow> string \<Rightarrow> string \<Rightarrow> int \<Rightarrow> (string option \<times> int) comp" where
  "attempt_loop env query route attempt =
     (if attempt \<le> max_attempts
      then (case run_attempt env query route attempt of
              (Inl e, t) \<Rightarrow> (Inl e, t)
            | (Inr (current_answer, validation), t) \<Rightarrow>
                if map_of validation ''status'' = Some ''ACCEPT''
                then (Inr (Some current_answer, attempt), t)
                else (case attempt_loop env query
                             (case map_of validation ''next_agent'' of
                                Some next_agent \<Rightarrow> next_agent
                              | None \<Rightarrow> ''BOTH'')
                             (attempt + 1) of
                        (r, t') \<Rightarrow> (r, t @ t')))
      else (Inr (None, attempt), []))"
  by pat_completeness auto
termination
  by (relation "measure (\<lambda>(env, query, route, attempt). nat (max_attempts + 1 - attempt))") auto

declare attempt_loop.simps [simp del]

text \<open>The truth value Python gives \<open>final_answer\<close>: false for \<open>None\<close> and for the empty string.\<close>

definition truthy :: "string option \<Rightarrow> bool" where
  "truthy v = (case v of None \<Rightarrow> False | Some s \<Rightarrow> s \<noteq> [])"

text \<open>
  The body of the \<open>try\<close> block of \<open>process_query\<close>: the two connections are opened,
  the query is routed, and the loop starts with \<open>attempt = 1\<close>.
\<close>

definition try_body :: "env \<Rightarrow> string \<Rightarrow> (string option \<times> int) comp" where
  "try_body env query =
     bind_comp (kickoff env query Open_person_tools) (\<lambda>_.
     bind_comp (kickoff env query Open_bank_tools) (\<lambda>_.
     bind_comp (kickoff env query Ran_routing) (\<lambda>routing_result.
       attempt_loop env query (parse_routing_decision routing_result) 1)))"

text \<open>
  \<open>process_query\<close>, with the trace of the calls it made. Whatever raises in the
  \<open>try\<close> block ends in the \<open>except\<close> branch. \<open>if final_answer:\<close> is a test of
  truth, so \<open>the final_answer\<close> is only read when there is an answer.
\<close>

definition process_query :: "env \<Rightarrow> string \<Rightarrow> pyval dict \<times> event list" where
  "process_query env query =
     (case try_body env query of
        (Inr (final_answer, attempt), t) \<Rightarrow>
          if truthy final_answer
          then ([(''success'', PyBool True), (''query'', PyStr query),
                 (''result'', PyStr (the final_answer)), (''attempts'', PyInt attempt),
                 (''pattern'', PyStr ''supervisor_multi_agent'')], t)
          else ([(''success'', PyBool False), (''query'', PyStr query),
                 (''error'', PyStr ''Could not generate satisfactory answer after maximum attempts''),
                 (''attempts'', PyInt max_attempts),
                 (''pattern'', PyStr ''supervisor_multi_agent'')], t)
      | (Inl e, t) \<Rightarrow>
          ([(''success'', PyBool False), (''query'', PyStr query), (''error'', PyStr e)], t))"

text \<open>Reading a trace: the attempt a call belongs to, and the attempts that reached validation.\<close>

fun event_attempt :: "event \<Rightarrow> int option" where
  "event_attempt (Ran_mcp n) = Some n"
| "event_attempt (Ran_rag n) = Some n"
| "event_attempt (Ran_synthesis n worker_results) = Some n"
| "event_attempt (Ran_validation n current_answer) = Some n"
| "event_attempt ev = None"

fun validated :: "event list \<Rightarrow> int list" where
  "validated [] = []"
| "validated (Ran_validation n current_answer # evs) = n # validated evs"
| "validated (ev # evs) = validated evs"

section \<open>config.py: the sensitive pattern\<close>









section \<open>Reading runs of process\_query\<close>

text \<open>
  The routes the program compares against. Every route the loop is given comes from one
  of the two normalizers, so it is one of these.
\<close>

definition valid_route :: "string \<Rightarrow> bool" where
  "valid_route route = (route = ''MCP'' \<or> route = ''RAG'' \<or> route = ''BOTH'')"


text \<open>
  All calls of a trace answered (none raised), and the shape of every trace: a call that
  raises is the last call made, and its exception is the outcome.
\<close>

definition calls_ok :: "env \<Rightarrow> string \<Rightarrow> event list \<Rightarrow> bool" where
  "calls_ok env query t = (\<forall>ev \<in> set t. \<exists>text. reply env query ev = Inr text)"

definition sound :: "env \<Rightarrow> string \<Rightarrow> 'a comp \<Rightarrow> bool" where
  "sound env query m =
     (case m of
        (Inl e, t) \<Rightarrow> t \<noteq> [] \<and> reply env query (last t) = Inl e \<and> calls_ok env query (butlast t)
      | (Inr x, t) \<Rightarrow> calls_ok env query t)"

text \<open>
  In attempt \<open>n\<close> no call raises and the validator's reply is read as RETRY, whatever it
  is asked; and a run in which that holds for every attempt the loop can make.
\<close>

definition answers_retry :: "env \<Rightarrow> string \<Rightarrow> int \<Rightarrow> bool" where
  "answers_retry env query n =
     ((\<exists>text. mcp_kickoff env n query = Inr text) \<and>
      (\<exists>text. rag_kickoff env n query = Inr text) \<and>
      (\<forall>worker_results. \<exists>text. synthesis_kickoff env n query worker_results = Inr text) \<and>
      (\<forall>answer. \<exists>text. validation_kickoff env n query answer = Inr text \<and>
          map_of (parse_validation_result text) ''status'' = Some ''RETRY''))"

definition always_retry :: "env \<Rightarrow> string \<Rightarrow> bool" where
  "always_retry env query =
     (person_tools env = None \<and> bank_tools env = None \<and>
      (\<exists>raw. routing_kickoff env query = Inr raw) \<and>
      (\<forall>n. 1 \<le> n \<and> n \<le> max_attempts \<longrightarrow> answers_retry env query n))"

text \<open>Environments used as concrete inputs.\<close>

definition env_always_retry :: env where
  "env_always_retry =
     \<lparr>person_tools = None, bank_tools = None,
      routing_kickoff = (\<lambda>query. Inr ''BOTH''),
      mcp_kickoff = (\<lambda>attempt query. Inr ''No such person''),
      rag_kickoff = (\<lambda>attempt query. Inr ''Nothing in the documents''),
      synthesis_kickoff = (\<lambda>attempt query worker_results. Inr ''Nothing is known''),
      validation_kickoff = (\<lambda>attempt query answer. Inr ''RETRY_WITH_MCP'')\<rparr>"

definition env_empty_answer :: env where
  "env_empty_answer =
     \<lparr>person_tools = None, bank_tools = None,
      routing_kickoff = (\<lambda>query. Inr ''MCP''),
      mcp_kickoff = (\<lambda>attempt query. Inr ''''),
      rag_kickoff = (\<lambda>attempt query. Inr ''''),
      synthesis_kickoff = (\<lambda>attempt query worker_results. Inr ''''),
      validation_kickoff = (\<lambda>attempt query answer. Inr ''ACCEPT'')\<rparr>"

definition env_rag_raises :: env where
  "env_rag_raises =
     \<lparr>person_tools = None, bank_tools = None,
      routing_kickoff = (\<lambda>query. Inr ''BOTH''),
      mcp_kickoff = (\<lambda>attempt query. Inr ''Jane is 30, email jane@x.com''),
      rag_kickoff = (\<lambda>attempt query. Inl ''vector store unreachable''),
      synthesis_kickoff = (\<lambda>attempt query worker_results. Inr ''Jane is 30''),
      validation_kickoff = (\<lambda>attempt query answer. Inr ''ACCEPT'')\<rparr>"



section \<open>tools/database.py: the store\<close>

text \<open>
  The two tables, as \<open>_initialize_db\<close> creates them. Rows are kept in the order a scan of
  the table visits them. \<open>balance\<close> is a \<open>REAL\<close>; the tools only store it, compare it with
  \<open>None\<close> and add it up, so it is a \<open>real\<close> here. The two \<open>_seq\<close> fields are the
  \<open>AUTOINCREMENT\<close> counters SQLite keeps for the tables.
\<close>

record person_row =
  id_col :: int
  name_col :: string
  age_col :: int
  email_col :: string

record account_row =
  accountId_col :: int
  personId_col :: int
  bankName_col :: string
  balance_col :: real

record store =
  persons :: "person_row list"
  bank_accounts :: "account_row list"
  persons_seq :: int
  bank_accounts_seq :: int

text \<open>
  A connection to the store. SQLite enforces foreign keys (and so \<open>ON DELETE CASCADE\<close>)
  only on a connection on which \<open>PRAGMA foreign_keys = ON\<close> was executed; a new
  connection has it off. \<open>_initialize_db\<close> opens the connection and creates the tables if
  they are missing; it never executes the pragma, and neither does any other statement
  of the program.
\<close>

record db = store +
  foreign_keys :: bool

definition empty_store :: store where
  "empty_store = \<lparr>persons = [], bank_accounts = [], persons_seq = 0, bank_accounts_seq = 0\<rparr>"

definition initialize_db :: "store \<Rightarrow> db" where
  "initialize_db file =
     \<lparr>persons = persons file, bank_accounts = bank_accounts file,
      persons_seq = persons_seq file, bank_accounts_seq = bank_accounts_seq file,
      foreign_keys = False\<rparr>"

subsection \<open>The SQL statements\<close>

text \<open>
  Binding a Python \<open>int\<close> that does not fit 64 bits raises \<open>OverflowError\<close>; an
  \<open>INSERT\<close> or \<open>UPDATE\<close> that would store an email twice raises \<open>IntegrityError\<close>. A
  statement that raises changes nothing. Failures of the engine itself (a full disk, a
  locked file) are not modelled.
\<close>

definition sqlite_int :: "int \<Rightarrow> bool" where
  "sqlite_int i = (- (2 ^ 63) \<le> i \<and> i < 2 ^ 63)"

definition overflow_error :: exn where
  "overflow_error = ''Python int too large to convert to SQLite INTEGER''"

fun fetchone :: "'a list \<Rightarrow> 'a option" where
  "fetchone [] = None"
| "fetchone (row # rows) = Some row"

text \<open>\<open>SELECT ... FROM persons WHERE id = ?\<close>\<close>

definition select_persons_by_id :: "db \<Rightarrow> int \<Rightarrow> exn + person_row list" where
  "select_persons_by_id conn person_id =
     (if sqlite_int person_id
      then Inr (filter (\<lambda>row. id_col row = person_id) (persons conn))
      else Inl overflow_error)"

text \<open>\<open>SELECT * FROM persons WHERE LOWER(name) = LOWER(?)\<close>\<close>

definition select_persons_by_name :: "db \<Rightarrow> string \<Rightarrow> person_row list" where
  "select_persons_by_name conn name =
     filter (\<lambda>row. lower (name_col row) = lower name) (persons conn)"

text \<open>The rowid an \<open>AUTOINCREMENT\<close> table gives a new row: one more than the largest ever used.\<close>

definition next_rowid :: "int \<Rightarrow> int list \<Rightarrow> int" where
  "next_rowid seq ids = fold max ids seq + 1"

text \<open>\<open>INSERT INTO persons (name, age, email) VALUES (?, ?, ?)\<close>, with \<open>cursor.lastrowid\<close>\<close>

definition insert_person :: "db \<Rightarrow> string \<Rightarrow> int \<Rightarrow> string \<Rightarrow> exn + (int \<times> db)" where
  "insert_person conn name age email =
     (if \<not> sqlite_int age then Inl overflow_error
      else if list_ex (\<lambda>row. email_col row = email) (persons conn)
      then Inl ''UNIQUE constraint failed: persons.email''
      else (let rowid = next_rowid (persons_seq conn) (map id_col (persons conn)) in
            Inr (rowid,
                 conn\<lparr>persons := persons conn @
                         [\<lparr>id_col = rowid, name_col = name, age_col = age, email_col = email\<rparr>],
                       persons_seq := rowid\<rparr>)))"

text \<open>\<open>UPDATE persons SET name = ?, age = ?, email = ? WHERE id = ?\<close>\<close>

definition update_persons :: "db \<Rightarrow> string \<Rightarrow> int \<Rightarrow> string \<Rightarrow> int \<Rightarrow> exn + db" where
  "update_persons conn name age email person_id =
     (if \<not> sqlite_int age \<or> \<not> sqlite_int person_id then Inl overflow_error
      else if list_ex (\<lambda>row. id_col row = person_id) (persons conn) \<and>
              list_ex (\<lambda>row. id_col row \<noteq> person_id \<and> email_col row = email) (persons conn)
      then Inl ''UNIQUE constraint failed: persons.email''
      else Inr (conn\<lparr>persons :=
                  map (\<lambda>row. if id_col row = person_id
                              then row\<lparr>name_col := name, age_col := age, email_col := email\<rparr>
                              else row)
                      (persons conn)\<rparr>))"

text \<open>
  \<open>DELETE FROM persons WHERE id = ?\<close>. The rows of \<open>bank_accounts\<close> that refer to the
  person go with it only when the connection enforces foreign keys.
\<close>

definition delete_persons :: "db \<Rightarrow> int \<Rightarrow> exn + db" where
  "delete_persons conn person_id =
     (if \<not> sqlite_int person_id then Inl overflow_error
      else Inr (conn\<lparr>persons := filter (\<lambda>row. id_col row \<noteq> person_id) (persons conn),
                     bank_accounts :=
                       (if foreign_keys conn
                        then filter (\<lambda>row. personId_col row \<noteq> person_id) (bank_accounts conn)
                        else bank_accounts conn)\<rparr>))"

text \<open>\<open>SELECT * FROM bank_accounts WHERE accountId = ?\<close>\<close>

definition select_accounts_by_id :: "db \<Rightarrow> int \<Rightarrow> exn + account_row list" where
  "select_accounts_by_id conn account_id =
     (if sqlite_int account_id
      then Inr (filter (\<lambda>row. accountId_col row = account_id) (bank_accounts conn))
      else Inl overflow_error)"

text \<open>\<open>SELECT * FROM bank_accounts WHERE personId = ?\<close>\<close>

definition select_accounts_by_person :: "db \<Rightarrow> int \<Rightarrow> exn + account_row list" where
  "select_accounts_by_person conn person_id =
     (if sqlite_int person_id
      then Inr (filter (\<lambda>row. personId_col row = person_id) (bank_accounts conn))
      else Inl overflow_error)"

text \<open>\<open>INSERT INTO bank_accounts (personId, bankName, balance) VALUES (?, ?, ?)\<close>\<close>

definition insert_account :: "db \<Rightarrow> int \<Rightarrow> string \<Rightarrow> real \<Rightarrow> exn + (int \<times> db)" where
  "insert_account conn person_id bank_name balance =
     (if \<not> sqlite_int person_id then Inl overflow_error
      else if foreign_keys conn \<and> \<not> list_ex (\<lambda>row. id_col row = person_id) (persons conn)
      then Inl ''FOREIGN KEY constraint failed''
      else (let rowid = next_rowid (bank_accounts_seq conn) (map accountId_col (bank_accounts conn)) in
            Inr (rowid,
                 conn\<lparr>bank_accounts := bank_accounts conn @
                         [\<lparr>accountId_col = rowid, personId_col = person_id,
                           bankName_col = bank_name, balance_col = balance\<rparr>],
                       bank_accounts_seq := rowid\<rparr>)))"

text \<open>\<open>UPDATE bank_accounts SET bankName = ?, balance = ? WHERE accountId = ?\<close>\<close>

definition update_accounts :: "db \<Rightarrow> string \<Rightarrow> real \<Rightarrow> int \<Rightarrow> exn + db" where
  "update_accounts conn bank_name balance account_id =
     (if \<not> sqlite_int account_id then Inl overflow_error
      else Inr (conn\<lparr>bank_accounts :=
                  map (\<lambda>row. if accountId_col row = account_id
                              then row\<lparr>bankName_col := bank_name, balance_col := balance\<rparr>
                              else row)
                      (bank_accounts conn)\<rparr>))"

text \<open>\<open>DELETE FROM bank_accounts WHERE accountId = ?\<close>\<close>

definition delete_accounts :: "db \<Rightarrow> int \<Rightarrow> exn + db" where
  "delete_accounts conn account_id =
     (if \<not> sqlite_int account_id then Inl overflow_error
      else Inr (conn\<lparr>bank_accounts :=
                  filter (\<lambda>row. accountId_col row \<noteq> account_id) (bank_accounts conn)\<rparr>))"

text \<open>
  The \<open>LEFT JOIN\<close> of \<open>get_person_with_accounts\<close>: each person with the given id, paired
  with each of its accounts, or with no account (\<open>NULL\<close> columns) when it has none.
\<close>

definition select_person_left_join_accounts ::
    "db \<Rightarrow> int \<Rightarrow> exn + (person_row \<times> account_row option) list" where
  "select_person_left_join_accounts conn person_id =
     (if \<not> sqlite_int person_id then Inl overflow_error
      else Inr (concat (map (\<lambda>p.
                  (case filter (\<lambda>b. personId_col b = id_col p) (bank_accounts conn) of
                     [] \<Rightarrow> [(p, None)]
                   | accounts \<Rightarrow> map (\<lambda>b. (p, Some b)) accounts))
                  (filter (\<lambda>p. id_col p = person_id) (persons conn)))))"

subsection \<open>Formatting\<close>

text \<open>\<open>str(n)\<close> of an integer, as the f-strings of the messages print it.\<close>

definition digit_char :: "nat \<Rightarrow> char" where
  "digit_char d = char_of (48 + d)"

function str_nat :: "nat \<Rightarrow> string" where
  "str_nat n = (if n < 10 then [digit_char n] else str_nat (n div 10) @ [digit_char (n mod 10)])"
  by pat_completeness auto
termination
  by (relation "measure id") auto

declare str_nat.simps [simp del]

definition str_int :: "int \<Rightarrow> string" where
  "str_int i = (if i < 0 then ''-'' @ str_nat (nat (- i)) else str_nat (nat i))"

text \<open>
  The handler every tool ends with: \<open>except Exception as e: return {"success": False,
  "error": str(e)}\<close>. The statement that raised changed nothing, so the store is as it was
  when the tool was called.
\<close>

definition except_error :: "db \<Rightarrow> exn + (pyval dict \<times> db) \<Rightarrow> pyval dict \<times> db" where
  "except_error conn body =
     (case body of
        Inr result \<Rightarrow> result
      | Inl e \<Rightarrow> ([(''success'', PyBool False), (''error'', PyStr e)], conn))"

text \<open>\<open>x or y\<close> on an optional string: \<open>None\<close> and the empty string are false.\<close>

definition or_else :: "string option \<Rightarrow> string \<Rightarrow> string" where
  "or_else x y = (case x of None \<Rightarrow> y | Some s \<Rightarrow> if s = [] then y else s)"

text \<open>Running the next statement of a \<open>try\<close> block when the one before did not raise.\<close>

definition bind_exn :: "exn + 'a \<Rightarrow> ('a \<Rightarrow> exn + 'b) \<Rightarrow> exn + 'b" where
  "bind_exn m f = (case m of Inl e \<Rightarrow> Inl e | Inr x \<Rightarrow> f x)"

text \<open>The dictionaries the tools build from a row.\<close>

definition person_dict :: "person_row \<Rightarrow> pyval" where
  "person_dict row =
     PyDict [(''id'', PyInt (id_col row)), (''name'', PyStr (name_col row)),
             (''age'', PyInt (age_col row)), (''email'', PyStr (email_col row))]"

definition account_dict :: "account_row \<Rightarrow> pyval" where
  "account_dict row =
     PyDict [(''accountId'', PyInt (accountId_col row)), (''personId'', PyInt (personId_col row)),
             (''bankName'', PyStr (bankName_col row)), (''balance'', PyFloat (balance_col row))]"

definition account_summary :: "account_row \<Rightarrow> pyval" where
  "account_summary row =
     PyDict [(''accountId'', PyInt (accountId_col row)),
             (''bankName'', PyStr (bankName_col row)), (''balance'', PyFloat (balance_col row))]"

text \<open>\<open>total_balance += row["balance"]\<close>, where \<open>total_balance\<close> starts as the integer 0.\<close>

definition add_balance :: "pyval \<Rightarrow> real \<Rightarrow> pyval" where
  "add_balance total_balance x =
     (case total_balance of
        PyInt i \<Rightarrow> PyFloat (of_int i + x)
      | PyFloat y \<Rightarrow> PyFloat (y + x)
      | other \<Rightarrow> other)"

section \<open>mcp\_servers/person\_server.py\<close>

definition create_person :: "db \<Rightarrow> string \<Rightarrow> int \<Rightarrow> string \<Rightarrow> pyval dict \<times> db" where
  "create_person conn name age email =
     (case insert_person conn name age email of
        Inr (person_id, conn') \<Rightarrow>
          ([(''success'', PyBool True),
            (''person'', PyDict [(''id'', PyInt person_id), (''name'', PyStr name),
                                 (''age'', PyInt age), (''email'', PyStr email)]),
            (''message'', PyStr (''Person '' @ name @ '' created successfully with ID '' @
                                 str_int person_id))], conn')
      | Inl e \<Rightarrow>
          if str_in ''UNIQUE constraint failed'' e
          then ([(''success'', PyBool False), (''error'', PyStr ''Email already exists'')], conn)
          else ([(''success'', PyBool False), (''error'', PyStr e)], conn))"

definition get_person :: "db \<Rightarrow> int \<Rightarrow> pyval dict \<times> db" where
  "get_person conn person_id =
     except_error conn
       (bind_exn (select_persons_by_id conn person_id) (\<lambda>rows.
          case fetchone rows of
            Some row \<Rightarrow> Inr ([(''success'', PyBool True), (''person'', person_dict row)], conn)
          | None \<Rightarrow> Inr ([(''success'', PyBool False), (''error'', PyStr ''Person not found'')], conn)))"

definition list_persons :: "db \<Rightarrow> pyval dict \<times> db" where
  "list_persons conn =
     except_error conn
       (let rows = persons conn in
        Inr ([(''success'', PyBool True), (''persons'', PyList (map person_dict rows)),
              (''count'', PyInt (int (length rows)))], conn))"

definition search_person_by_name :: "db \<Rightarrow> string \<Rightarrow> pyval dict \<times> db" where
  "search_person_by_name conn name =
     except_error conn
       (case fetchone (select_persons_by_name conn name) of
          Some row \<Rightarrow> Inr ([(''success'', PyBool True), (''person'', person_dict row)], conn)
        | None \<Rightarrow>
            Inr ([(''success'', PyBool False),
                  (''error'', PyStr (''No person named '' @ name @ '' found''))], conn))"

definition update_person ::
    "db \<Rightarrow> int \<Rightarrow> string option \<Rightarrow> int option \<Rightarrow> string option \<Rightarrow> pyval dict \<times> db" where
  "update_person conn person_id name age email =
     except_error conn
       (bind_exn (select_persons_by_id conn person_id) (\<lambda>rows.
          case fetchone rows of
            None \<Rightarrow> Inr ([(''success'', PyBool False), (''error'', PyStr ''Person not found'')], conn)
          | Some current \<Rightarrow>
              (let name = or_else name (name_col current);
                   age = (case age of Some a \<Rightarrow> a | None \<Rightarrow> age_col current);
                   email = or_else email (email_col current)
               in bind_exn (update_persons conn name age email person_id) (\<lambda>conn'.
                    Inr ([(''success'', PyBool True),
                          (''person'', PyDict [(''id'', PyInt person_id), (''name'', PyStr name),
                                               (''age'', PyInt age), (''email'', PyStr email)]),
                          (''message'', PyStr (''Person '' @ name @ '' updated successfully''))],
                         conn')))))"

definition delete_person :: "db \<Rightarrow> int \<Rightarrow> pyval dict \<times> db" where
  "delete_person conn person_id =
     except_error conn
       (bind_exn (select_persons_by_id conn person_id) (\<lambda>rows.
          case fetchone rows of
            None \<Rightarrow> Inr ([(''success'', PyBool False), (''error'', PyStr ''Person not found'')], conn)
          | Some person \<Rightarrow>
              bind_exn (delete_persons conn person_id) (\<lambda>conn'.
                Inr ([(''success'', PyBool True),
                      (''message'', PyStr (''Person '' @ name_col person @ '' deleted successfully''))],
                     conn'))))"

section \<open>mcp\_servers/bank\_server.py\<close>

definition create_bank_account :: "db \<Rightarrow> int \<Rightarrow> string \<Rightarrow> real \<Rightarrow> pyval dict \<times> db" where
  "create_bank_account conn person_id bank_name balance =
     except_error conn
       (bind_exn (select_persons_by_id conn person_id) (\<lambda>rows.
          case fetchone rows of
            None \<Rightarrow>
              Inr ([(''success'', PyBool False),
                    (''error'', PyStr (''Person with ID '' @ str_int person_id @ '' not found''))], conn)
          | Some person \<Rightarrow>
              bind_exn (insert_account conn person_id bank_name balance) (\<lambda>(account_id, conn').
                Inr ([(''success'', PyBool True),
                      (''account'', PyDict [(''accountId'', PyInt account_id),
                                            (''personId'', PyInt person_id),
                                            (''bankName'', PyStr bank_name),
                                            (''balance'', PyFloat balance)]),
                      (''message'', PyStr (''Bank account created successfully with ID '' @
                                           str_int account_id @ '' for '' @ name_col person))],
                     conn'))))"

definition get_bank_account :: "db \<Rightarrow> int \<Rightarrow> pyval dict \<times> db" where
  "get_bank_account conn account_id =
     except_error conn
       (bind_exn (select_accounts_by_id conn account_id) (\<lambda>rows.
          case fetchone rows of
            Some row \<Rightarrow> Inr ([(''success'', PyBool True), (''account'', account_dict row)], conn)
          | None \<Rightarrow>
              Inr ([(''success'', PyBool False), (''error'', PyStr ''Bank account not found'')], conn)))"

definition list_bank_accounts :: "db \<Rightarrow> pyval dict \<times> db" where
  "list_bank_accounts conn =
     except_error conn
       (let rows = bank_accounts conn in
        Inr ([(''success'', PyBool True), (''accounts'', PyList (map account_dict rows)),
              (''count'', PyInt (int (length rows)))], conn))"

definition get_accounts_by_person :: "db \<Rightarrow> int \<Rightarrow> pyval dict \<times> db" where
  "get_accounts_by_person conn person_id =
     except_error conn
       (bind_exn (select_persons_by_id conn person_id) (\<lambda>found.
          case fetchone found of
            None \<Rightarrow>
              Inr ([(''success'', PyBool False),
                    (''error'', PyStr (''Person with ID '' @ str_int person_id @ '' not found''))], conn)
          | Some person \<Rightarrow>
              bind_exn (select_accounts_by_person conn person_id) (\<lambda>rows.
                Inr ([(''success'', PyBool True), (''person'', PyStr (name_col person)),
                      (''accounts'', PyList (map account_summary rows)),
                      (''total_balance'',
                         fold (\<lambda>row total_balance. add_balance total_balance (balance_col row))
                              rows (PyInt 0)),
                      (''count'', PyInt (int (length rows)))], conn))))"

definition update_bank_account ::
    "db \<Rightarrow> int \<Rightarrow> string option \<Rightarrow> real option \<Rightarrow> pyval dict \<times> db" where
  "update_bank_account conn account_id bank_name balance =
     except_error conn
       (bind_exn (select_accounts_by_id conn account_id) (\<lambda>rows.
          case fetchone rows of
            None \<Rightarrow>
              Inr ([(''success'', PyBool False), (''error'', PyStr ''Bank account not found'')], conn)
          | Some current \<Rightarrow>
              (let bank_name = or_else bank_name (bankName_col current);
                   balance = (case balance of Some b \<Rightarrow> b | None \<Rightarrow> balance_col current)
               in bind_exn (update_accounts conn bank_name balance account_id) (\<lambda>conn'.
                    Inr ([(''success'', PyBool True),
                          (''account'', PyDict [(''accountId'', PyInt account_id),
                                                (''personId'', PyInt (personId_col current)),
                                                (''bankName'', PyStr bank_name),
                                                (''balance'', PyFloat balance)]),
                          (''message'', PyStr (''Bank account '' @ str_int account_id @
                                               '' updated successfully''))],
                         conn')))))"

definition delete_bank_account :: "db \<Rightarrow> int \<Rightarrow> pyval dict \<times> db" where
  "delete_bank_account conn account_id =
     except_error conn
       (bind_exn (select_accounts_by_id conn account_id) (\<lambda>rows.
          case fetchone rows of
            None \<Rightarrow>
              Inr ([(''success'', PyBool False), (''error'', PyStr ''Bank account not found'')], conn)
          | Some account \<Rightarrow>
              bind_exn (delete_accounts conn account_id) (\<lambda>conn'.
                Inr ([(''success'', PyBool True),
                      (''message'', PyStr (''Bank account '' @ str_int account_id @
                                           '' deleted successfully''))],
                     conn'))))"

text \<open>\<open>if row["accountId"]:\<close> holds for a row that has an account whose id is not 0.\<close>

definition joined_accounts :: "(person_row \<times> account_row option) list \<Rightarrow> account_row list" where
  "joined_accounts rows =
     concat (map (\<lambda>(p, b). case b of
                               Some account \<Rightarrow> if accountId_col account \<noteq> 0 then [account] else []
                             | None \<Rightarrow> [])
                 rows)"

definition get_person_with_accounts :: "db \<Rightarrow> int \<Rightarrow> pyval dict \<times> db" where
  "get_person_with_accounts conn person_id =
     except_error conn
       (bind_exn (select_person_left_join_accounts conn person_id) (\<lambda>rows.
          case rows of
            [] \<Rightarrow> Inr ([(''success'', PyBool False), (''error'', PyStr ''Person not found'')], conn)
          | first_row # _ \<Rightarrow>
              (let accounts = joined_accounts rows;
                   total_balance =
                     fold (\<lambda>row total_balance. add_balance total_balance (balance_col row))
                          accounts (PyInt 0);
                   person_info =
                     PyDict [(''id'', PyInt (id_col (fst first_row))),
                             (''name'', PyStr (name_col (fst first_row))),
                             (''age'', PyInt (age_col (fst first_row))),
                             (''email'', PyStr (email_col (fst first_row))),
                             (''accounts'', PyList (map account_summary accounts)),
                             (''total_balance'', total_balance)]
               in Inr ([(''success'', PyBool True), (''data'', person_info)], conn))))"

section \<open>The tools as one interface\<close>

datatype tool_call =
    Create_person string int string
  | Get_person int
  | List_persons
  | Search_person_by_name string
  | Update_person int "string option" "int option" "string option"
  | Delete_person int
  | Create_bank_account int string real
  | Get_bank_account int
  | List_bank_accounts
  | Get_accounts_by_person int
  | Update_bank_account int "string option" "real option"
  | Delete_bank_account int
  | Get_person_with_accounts int

fun call_tool :: "db \<Rightarrow> tool_call \<Rightarrow> pyval dict \<times> db" where
  "call_tool conn (Create_person name age email) = create_person conn name age email"
| "call_tool conn (Get_person person_id) = get_person conn person_id"
| "call_tool conn List_persons = list_persons conn"
| "call_tool conn (Search_person_by_name name) = search_person_by_name conn name"
| "call_tool conn (Update_person person_id name age email) = update_person conn person_id name age email"
| "call_tool conn (Delete_person person_id) = delete_person conn person_id"
| "call_tool conn (Create_bank_account person_id bank_name balance) =
     create_bank_account conn person_id bank_name balance"
| "call_tool conn (Get_bank_account account_id) = get_bank_account conn account_id"
| "call_tool conn List_bank_accounts = list_bank_accounts conn"
| "call_tool conn (Get_accounts_by_person person_id) = get_accounts_by_person conn person_id"
| "call_tool conn (Update_bank_account account_id bank_name balance) =
     update_bank_account conn account_id bank_name balance"
| "call_tool conn (Delete_bank_account account_id) = delete_bank_account conn account_id"
| "call_tool conn (Get_person_with_accounts person_id) = get_person_with_accounts conn person_id"

text \<open>Calling the tools one after the other on the same connection.\<close>

fun call_tools :: "db \<Rightarrow> tool_call list \<Rightarrow> pyval dict list \<times> db" where
  "call_tools conn [] = ([], conn)"
| "call_tools conn (c # cs) =
     (case call_tool conn c of
        (result, conn') \<Rightarrow> (case call_tools conn' cs of (results, conn'') \<Rightarrow> (result # results, conn'')))"

section \<open>Reading the store\<close>

text \<open>The row a \<open>SELECT ... WHERE id = ?\<close> followed by \<open>fetchone()\<close> gives.\<close>

definition person_by_id :: "db \<Rightarrow> int \<Rightarrow> person_row option" where
  "person_by_id conn person_id =
     fetchone (filter (\<lambda>row. id_col row = person_id) (persons conn))"

definition account_by_id :: "db \<Rightarrow> int \<Rightarrow> account_row option" where
  "account_by_id conn account_id =
     fetchone (filter (\<lambda>row. accountId_col row = account_id) (bank_accounts conn))"

text \<open>
  A result is structured when it carries \<open>success\<close> as a boolean and, when that is
  \<open>False\<close>, an \<open>error\<close> string, the store being as it was before the call.
\<close>

definition structured :: "db \<Rightarrow> pyval dict \<times> db \<Rightarrow> bool" where
  "structured conn res =
     (map_of (fst res) ''success'' = Some (PyBool True) \<or>
      (map_of (fst res) ''success'' = Some (PyBool False) \<and>
       (\<exists>e. map_of (fst res) ''error'' = Some (PyStr e)) \<and> snd res = conn))"

text \<open>A store used as a concrete input: two persons whose names differ only in case, one account.\<close>

definition example_db :: db where
  "example_db =
     \<lparr>persons =
        [\<lparr>id_col = 1, name_col = ''Jane'', age_col = 30, email_col = ''jane@x.com''\<rparr>,
         \<lparr>id_col = 2, name_col = ''JANE'', age_col = 41, email_col = ''jane2@x.com''\<rparr>],
      bank_accounts =
        [\<lparr>accountId_col = 1, personId_col = 1, bankName_col = ''HDFC'', balance_col = 100\<rparr>],
      persons_seq = 2, bank_accounts_seq = 1, foreign_keys = False\<rparr>"


section \<open>Facts about strings\<close>

lemma startswith_iff: "startswith s p \<longleftrightarrow> (\<exists>rest. s = p @ rest)"
  by (induction s p rule: startswith.induct) auto

lemma str_in_iff: "str_in needle s \<longleftrightarrow> (\<exists>before after. s = before @ needle @ after)"
proof (induction s)
  case Nil
  then show ?case by auto
next
  case (Cons c cs)
  show ?case
  proof
    assume "str_in needle (c # cs)"
    then consider "startswith (c # cs) needle" | "str_in needle cs" by auto
    then show "\<exists>before after. c # cs = before @ needle @ after"
    proof cases
      case 1
      then obtain rest where "c # cs = needle @ rest" by (auto simp: startswith_iff)
      then have "c # cs = [] @ needle @ rest" by simp
      then show ?thesis by blast
    next
      case 2
      then obtain before after where "cs = before @ needle @ after" using Cons.IH by auto
      then have "c # cs = (c # before) @ needle @ after" by simp
      then show ?thesis by blast
    qed
  next
    assume "\<exists>before after. c # cs = before @ needle @ after"
    then obtain before after where e: "c # cs = before @ needle @ after" by auto
    show "str_in needle (c # cs)"
    proof (cases before)
      case Nil
      with e have "\<exists>rest. c # cs = needle @ rest" by simp
      then have "startswith (c # cs) needle" by (simp only: startswith_iff)
      then show ?thesis by simp
    next
      case (Cons a before')
      then have "cs = before' @ needle @ after" using e by simp
      then have "str_in needle cs" using Cons.IH by blast
      then show ?thesis by simp
    qed
  qed
qed

lemma str_in_lower: "str_in term (lower output) \<longleftrightarrow> mentions term output"
  by (simp add: str_in_iff mentions_def)

lemma any_in_iff: "any_in keywords (lower output) \<longleftrightarrow> (\<exists>k. k \<in> set keywords \<and> mentions k output)"
  by (auto simp: any_in_def list_ex_iff str_in_lower)

section \<open>The routing normalizer\<close>

text \<open>
  C2. The routing normalizer is a function of the classifier's raw text alone (a HOL
  function: the same text always gives the same route, and nothing else is read or
  written). It returns BOTH when the lowercased reply mentions "both" or "mcp\_and\_rag";
  otherwise MCP when it mentions "mcp" or "database"; otherwise RAG when it mentions
  "rag" or "document"; otherwise BOTH.
\<close>

theorem parse_routing_decision_spec:
  "parse_routing_decision output =
     (if mentions ''both'' output \<or> mentions ''mcp_and_rag'' output then ''BOTH''
      else if mentions ''mcp'' output \<or> mentions ''database'' output then ''MCP''
      else if mentions ''rag'' output \<or> mentions ''document'' output then ''RAG''
      else ''BOTH'')"
  unfolding parse_routing_decision_def Let_def str_in_lower by (rule refl)

section \<open>The validation normalizer\<close>

text \<open>
  C1. The validation normalizer: a reply that mentions one of the ten acceptance terms
  is ACCEPT (the reply itself is the reason); otherwise a reply that mentions one of the
  retry terms is RETRY, with next route BOTH if it mentions "both", else MCP if it
  mentions "mcp", else RAG if it mentions "rag", else BOTH; otherwise a reply that
  mentions both "engine number" and "en12345xyz" is ACCEPT by the fixture shortcut;
  every other reply is ACCEPT by default.
\<close>

theorem parse_validation_result_spec:
  "parse_validation_result output =
     (if \<exists>k. k \<in> {''accept'', ''sufficient'', ''complete'', ''correct'', ''accurate'',
                  ''found'', ''yes'', ''good'', ''adequate'', ''satisfactory''} \<and> mentions k output
      then [(''status'', ''ACCEPT''), (''reason'', output)]
      else if \<exists>k. k \<in> set retry_keywords \<and> mentions k output
      then [(''status'', ''RETRY''),
            (''next_agent'',
               if mentions ''both'' output then ''BOTH''
               else if mentions ''mcp'' output then ''MCP''
               else if mentions ''rag'' output then ''RAG''
               else ''BOTH'')]
      else if mentions ''engine number'' output \<and> mentions ''en12345xyz'' output
      then [(''status'', ''ACCEPT''), (''reason'', ''Answer contains requested information'')]
      else [(''status'', ''ACCEPT''), (''reason'', ''Validation unclear, accepting answer'')])"
proof -
  have acc: "set accept_keywords =
      {''accept'', ''sufficient'', ''complete'', ''correct'', ''accurate'',
       ''found'', ''yes'', ''good'', ''adequate'', ''satisfactory''}"
    by (simp add: accept_keywords_def)
  show ?thesis
    unfolding parse_validation_result_def Let_def str_in_lower any_in_iff acc
    by (cases "mentions ''both'' output"; cases "mentions ''mcp'' output";
        cases "mentions ''rag'' output"; simp only: if_True if_False)
qed

text \<open>
  A few replies, evaluated. The acceptance terms are looked for first, and
  "insufficient", "incomplete" and "not found" contain "sufficient", "complete" and
  "found": a reply with one of them is accepted.
\<close>

lemma lower_example: "lower ''RETRY_WITH_MCP, Ok?'' = ''retry_with_mcp, ok?''"
  by code_simp

lemma parse_routing_decision_examples:
  "parse_routing_decision ''RAG'' = ''RAG''"
  "parse_routing_decision ''Use the database (MCP).'' = ''MCP''"
  "parse_routing_decision ''MCP and RAG, both'' = ''BOTH''"
  "parse_routing_decision ''I cannot tell'' = ''BOTH''"
  by code_simp+

lemma parse_validation_result_examples:
  "parse_validation_result ''RETRY_WITH_RAG'' = [(''status'', ''RETRY''), (''next_agent'', ''RAG'')]"
  "parse_validation_result ''Retry.'' = [(''status'', ''RETRY''), (''next_agent'', ''BOTH'')]"
  "parse_validation_result ''The answer is insufficient'' =
     [(''status'', ''ACCEPT''), (''reason'', ''The answer is insufficient'')]"
  "parse_validation_result ''Engine number: EN12345XYZ'' =
     [(''status'', ''ACCEPT''), (''reason'', ''Answer contains requested information'')]"
  "parse_validation_result ''Hmm'' =
     [(''status'', ''ACCEPT''), (''reason'', ''Validation unclear, accepting answer'')]"
  by code_simp+

section \<open>Facts about process\_query\<close>

lemma bind_comp_Inl [simp]: "bind_comp (Inl e, t) f = (Inl e, t)"
  by (simp add: bind_comp_def)

lemma bind_comp_Inr [simp]: "bind_comp (Inr x, t) f = (fst (f x), t @ snd (f x))"
  by (simp add: bind_comp_def split: prod.splits)

lemma calls_ok_append [simp]:
  "calls_ok env query (t @ t') \<longleftrightarrow> calls_ok env query t \<and> calls_ok env query t'"
  by (auto simp: calls_ok_def)

lemma sound_ret [simp]: "sound env query (ret x)"
  by (simp add: sound_def ret_def calls_ok_def)

lemma sound_kickoff [simp]: "sound env query (kickoff env query ev)"
  by (cases "reply env query ev") (auto simp: sound_def kickoff_def calls_ok_def)

lemma sound_Inl: "sound env query (Inl e, t) \<longleftrightarrow>
    t \<noteq> [] \<and> reply env query (last t) = Inl e \<and> calls_ok env query (butlast t)"
  by (simp add: sound_def)

lemma sound_Inr: "sound env query (Inr x, t) \<longleftrightarrow> calls_ok env query t"
  by (simp add: sound_def)

lemma sound_append:
  assumes "calls_ok env query t" and "sound env query (r, t')"
  shows "sound env query (r, t @ t')"
proof (cases r)
  case (Inl e)
  with assms show ?thesis by (simp add: sound_Inl butlast_append)
next
  case (Inr x)
  with assms show ?thesis by (simp add: sound_Inr)
qed

lemma sound_bind:
  assumes "sound env query m" and "\<And>x. sound env query (f x)"
  shows "sound env query (bind_comp m f)"
proof (cases m)
  case (Pair out t)
  show ?thesis
  proof (cases out)
    case (Inl e)
    with Pair assms(1) show ?thesis by (simp add: sound_Inl)
  next
    case (Inr x)
    have "sound env query (fst (f x), snd (f x))" using assms(2) by simp
    moreover have "calls_ok env query t" using assms(1) Pair Inr by (simp add: sound_Inr)
    ultimately have "sound env query (fst (f x), t @ snd (f x))" by (rule sound_append[rotated])
    with Pair Inr show ?thesis by simp
  qed
qed

lemma sound_execute_workers: "sound env query (execute_workers env query route attempt)"
  unfolding execute_workers_def by (auto intro!: sound_bind)

lemma sound_synthesize: "sound env query (synthesize env query attempt worker_results)"
  unfolding synthesize_def by simp

lemma sound_run_attempt: "sound env query (run_attempt env query route attempt)"
  unfolding run_attempt_def
  by (intro sound_bind sound_execute_workers sound_synthesize sound_kickoff sound_ret)

lemma sound_attempt_loop: "sound env query (attempt_loop env query route attempt)"
proof (induction env query route attempt rule: attempt_loop.induct)
  case (1 env query route attempt)
  show ?case
  proof (cases "attempt \<le> max_attempts")
    case False
    then show ?thesis by (simp add: attempt_loop.simps sound_Inr calls_ok_def)
  next
    case True
    obtain out t where ra: "run_attempt env query route attempt = (out, t)" by (cases "run_attempt env query route attempt")
    have s: "sound env query (out, t)" using sound_run_attempt[of env query route attempt] ra by simp
    show ?thesis
    proof (cases out)
      case (Inl e)
      with True ra s show ?thesis by (simp add: attempt_loop.simps sound_Inl)
    next
      case (Inr p)
      obtain current_answer validation where p: "p = (current_answer, validation)" by (cases p)
      show ?thesis
      proof (cases "map_of validation ''status'' = Some ''ACCEPT''")
        case acc: True
        with True ra s Inr p show ?thesis by (simp add: attempt_loop.simps sound_Inr)
      next
        case rej: False
        let ?next = "case map_of validation ''next_agent'' of Some next_agent \<Rightarrow> next_agent | None \<Rightarrow> ''BOTH''"
        have ih: "sound env query (attempt_loop env query ?next (attempt + 1))"
          using "1.IH"[OF True ra[symmetric] Inr p[symmetric] rej] .
        obtain r t' where l: "attempt_loop env query ?next (attempt + 1) = (r, t')"
          by (cases "attempt_loop env query ?next (attempt + 1)")
        have "sound env query (r, t @ t')"
          using s Inr ih l by (intro sound_append) (simp_all add: sound_Inr)
        with True ra Inr p rej l show ?thesis by (simp add: attempt_loop.simps[of env query route attempt])
      qed
    qed
  qed
qed

lemma process_query_sound:
  assumes "process_query env query = (r, tr)"
  shows "(\<exists>e. r = [(''success'', PyBool False), (''query'', PyStr query), (''error'', PyStr e)] \<and>
              tr \<noteq> [] \<and> reply env query (last tr) = Inl e \<and> calls_ok env query (butlast tr))
         \<or> (map_of r ''attempts'' \<noteq> None \<and> calls_ok env query tr)"
proof -
  let ?m = "try_body env query"
  have s: "sound env query ?m"
    unfolding try_body_def by (intro sound_bind sound_kickoff sound_attempt_loop)
  obtain out t where m: "?m = (out, t)" by (cases ?m)
  show ?thesis
  proof (cases out)
    case (Inl e)
    with s m assms show ?thesis by (auto simp: process_query_def sound_Inl)
  next
    case (Inr p)
    with s m assms show ?thesis by (auto simp: process_query_def sound_Inr split: prod.splits if_splits)
  qed
qed



lemma status_cases:
  "map_of (parse_validation_result output) ''status'' = Some ''ACCEPT'' \<or>
   map_of (parse_validation_result output) ''status'' = Some ''RETRY''"
  by (simp add: parse_validation_result_def Let_def)


lemma ret_eq [simp]: "ret x = (Inr y, t) \<longleftrightarrow> x = y \<and> t = []"
  by (auto simp: ret_def)

lemma kickoff_eq_Inr [simp]:
  "kickoff env query ev = (Inr text, t) \<longleftrightarrow> reply env query ev = Inr text \<and> t = [ev]"
  by (auto simp: kickoff_def)

lemma kickoff_reply: "kickoff env query ev = (reply env query ev, [ev])"
  by (simp add: kickoff_def)

lemma execute_workers_BOTH:
  "execute_workers env query ''BOTH'' attempt =
     (case reply env query (Ran_mcp attempt) of
        Inl e \<Rightarrow> (Inl e, [Ran_mcp attempt])
      | Inr a \<Rightarrow>
          (case reply env query (Ran_rag attempt) of
             Inl e \<Rightarrow> (Inl e, [Ran_mcp attempt, Ran_rag attempt])
           | Inr b \<Rightarrow> (Inr [(''MCP'', a), (''RAG'', b)], [Ran_mcp attempt, Ran_rag attempt])))"
  by (simp add: execute_workers_def kickoff_reply ret_def split: sum.splits)

lemma execute_workers_MCP:
  "execute_workers env query ''MCP'' attempt =
     (case reply env query (Ran_mcp attempt) of
        Inl e \<Rightarrow> (Inl e, [Ran_mcp attempt])
      | Inr a \<Rightarrow> (Inr [(''MCP'', a)], [Ran_mcp attempt]))"
  by (simp add: execute_workers_def kickoff_reply ret_def split: sum.splits)

lemma execute_workers_RAG:
  "execute_workers env query ''RAG'' attempt =
     (case reply env query (Ran_rag attempt) of
        Inl e \<Rightarrow> (Inl e, [Ran_rag attempt])
      | Inr b \<Rightarrow> (Inr [(''RAG'', b)], [Ran_rag attempt]))"
  by (simp add: execute_workers_def kickoff_reply ret_def split: sum.splits)

lemma execute_workers_other:
  "\<not> valid_route route \<Longrightarrow> execute_workers env query route attempt = (Inr [], [])"
  by (simp add: execute_workers_def valid_route_def ret_def)

lemma run_attempt_eq:
  "execute_workers env query route n = (Inr ws, t1) \<Longrightarrow>
   synthesize env query n ws = (Inr a, t2) \<Longrightarrow>
   reply env query (Ran_validation n a) = Inr text \<Longrightarrow>
   run_attempt env query route n =
     (Inr (a, parse_validation_result text), t1 @ t2 @ [Ran_validation n a])"
  by (simp add: run_attempt_def kickoff_reply ret_def)

lemma validated_append [simp]: "validated (t @ t') = validated t @ validated t'"
  by (induction t rule: validated.induct) simp_all

lemma execute_workers_ok:
  assumes "mcp_kickoff env n query = Inr a" and "rag_kickoff env n query = Inr b"
  shows "\<exists>ws t. execute_workers env query route n = (Inr ws, t) \<and> validated t = []"
proof (cases "valid_route route")
  case False
  then show ?thesis by (simp add: execute_workers_other)
next
  case True
  then consider "route = ''MCP''" | "route = ''RAG''" | "route = ''BOTH''"
    by (auto simp: valid_route_def)
  then show ?thesis
  proof cases
    case 1
    with assms show ?thesis by (simp add: execute_workers_MCP)
  next
    case 2
    with assms show ?thesis by (simp add: execute_workers_RAG)
  next
    case 3
    with assms show ?thesis by (simp add: execute_workers_BOTH)
  qed
qed

lemma synthesize_ok:
  assumes "\<forall>worker_results. \<exists>text. synthesis_kickoff env n query worker_results = Inr text"
  shows "\<exists>a t. synthesize env query n ws = (Inr a, t) \<and> validated t = []"
proof -
  obtain raw where "synthesis_kickoff env n query ws = Inr raw" using assms by blast
  then show ?thesis by (simp add: synthesize_def kickoff_reply ret_def)
qed

lemma run_attempt_retry:
  assumes "answers_retry env query n"
  shows "\<exists>answer validation t. run_attempt env query route n = (Inr (answer, validation), t) \<and>
           map_of validation ''status'' = Some ''RETRY'' \<and> validated t = [n]"
proof -
  from assms obtain a b where ab: "mcp_kickoff env n query = Inr a" "rag_kickoff env n query = Inr b"
    by (auto simp: answers_retry_def)
  from execute_workers_ok[OF ab] obtain ws t1 where
    ew: "execute_workers env query route n = (Inr ws, t1)" "validated t1 = []" by blast
  from assms have "\<forall>worker_results. \<exists>text. synthesis_kickoff env n query worker_results = Inr text"
    by (simp add: answers_retry_def)
  from synthesize_ok[OF this] obtain answer t2 where
    sy: "synthesize env query n ws = (Inr answer, t2)" "validated t2 = []" by blast
  from assms obtain raw where
    va: "validation_kickoff env n query answer = Inr raw"
        "map_of (parse_validation_result raw) ''status'' = Some ''RETRY''"
    by (auto simp: answers_retry_def)
  have "run_attempt env query route n =
     (Inr (answer, parse_validation_result raw), t1 @ t2 @ [Ran_validation n answer])"
    using ew(1) sy(1) va(1) by (intro run_attempt_eq) simp_all
  moreover have "validated (t1 @ t2 @ [Ran_validation n answer]) = [n]"
    using ew(2) sy(2) by simp
  ultimately show ?thesis using va(2) by blast
qed

lemma attempt_loop_exit: "\<not> attempt \<le> max_attempts \<Longrightarrow>
    attempt_loop env query route attempt = (Inr (None, attempt), [])"
  by (simp add: attempt_loop.simps)

lemma attempt_loop_accept:
  "attempt \<le> max_attempts \<Longrightarrow> run_attempt env query route attempt = (Inr (answer, validation), t) \<Longrightarrow>
   map_of validation ''status'' = Some ''ACCEPT'' \<Longrightarrow>
   attempt_loop env query route attempt = (Inr (Some answer, attempt), t)"
  by (simp add: attempt_loop.simps)

lemma attempt_loop_retry:
  "attempt \<le> max_attempts \<Longrightarrow> run_attempt env query route attempt = (Inr (answer, validation), t) \<Longrightarrow>
   map_of validation ''status'' \<noteq> Some ''ACCEPT'' \<Longrightarrow>
   attempt_loop env query route attempt =
     (fst (attempt_loop env query
             (case map_of validation ''next_agent'' of Some next_agent \<Rightarrow> next_agent | None \<Rightarrow> ''BOTH'')
             (attempt + 1)),
      t @ snd (attempt_loop env query
             (case map_of validation ''next_agent'' of Some next_agent \<Rightarrow> next_agent | None \<Rightarrow> ''BOTH'')
             (attempt + 1)))"
  by (simp add: attempt_loop.simps[of env query route attempt] split: prod.splits)

lemma attempt_loop_raise:
  "attempt \<le> max_attempts \<Longrightarrow> run_attempt env query route attempt = (Inl e, t) \<Longrightarrow>
   attempt_loop env query route attempt = (Inl e, t)"
  by (simp add: attempt_loop.simps)

lemma attempt_loop_always_retry:
  assumes "\<forall>n. attempt \<le> n \<and> n \<le> max_attempts \<longrightarrow> answers_retry env query n"
    and "attempt \<le> max_attempts + 1"
  shows "\<exists>t. attempt_loop env query route attempt = (Inr (None, max_attempts + 1), t) \<and>
              validated t = [attempt..max_attempts]"
  using assms
proof (induction env query route attempt rule: attempt_loop.induct)
  case (1 env query route attempt)
  show ?case
  proof (cases "attempt \<le> max_attempts")
    case False
    with "1.prems"(2) have "attempt = max_attempts + 1" by simp
    with False show ?thesis by (simp add: attempt_loop_exit)
  next
    case True
    then have "answers_retry env query attempt" using "1.prems"(1) by simp
    from run_attempt_retry[OF this, of route] obtain answer validation t where
      ra: "run_attempt env query route attempt = (Inr (answer, validation), t)"
      and st: "map_of validation ''status'' = Some ''RETRY''" and vt: "validated t = [attempt]"
      by blast
    have rej: "map_of validation ''status'' \<noteq> Some ''ACCEPT''" using st by simp
    let ?next = "case map_of validation ''next_agent'' of Some next_agent \<Rightarrow> next_agent | None \<Rightarrow> ''BOTH''"
    have "\<exists>t'. attempt_loop env query ?next (attempt + 1) = (Inr (None, max_attempts + 1), t') \<and>
              validated t' = [attempt + 1..max_attempts]"
      using "1.IH"[OF True ra[symmetric] refl refl rej] "1.prems"(1) True by simp
    then obtain t' where l: "attempt_loop env query ?next (attempt + 1) = (Inr (None, max_attempts + 1), t')"
      and vt': "validated t' = [attempt + 1..max_attempts]" by blast
    have "attempt_loop env query route attempt = (Inr (None, max_attempts + 1), t @ t')"
      using attempt_loop_retry[OF True ra rej] l by simp
    moreover have "validated (t @ t') = [attempt..max_attempts]"
      using vt vt' True by (simp add: upto_rec1[of attempt max_attempts])
    ultimately show ?thesis by blast
  qed
qed

lemma events_bind:
  assumes "\<forall>ev \<in> set (snd m). P ev" and "\<And>x. \<forall>ev \<in> set (snd (f x)). P ev"
  shows "\<forall>ev \<in> set (snd (bind_comp m f)). P ev"
proof (cases m)
  case (Pair out t)
  show ?thesis
  proof (cases out)
    case (Inl e)
    with Pair assms(1) show ?thesis by simp
  next
    case (Inr x)
    with Pair assms(1) assms(2)[of x] show ?thesis by auto
  qed
qed

lemma events_kickoff: "P ev \<Longrightarrow> \<forall>ev' \<in> set (snd (kickoff env query ev)). P ev'"
  by (simp add: kickoff_def)

lemma events_ret: "\<forall>ev \<in> set (snd (ret x)). P ev"
  by (simp add: ret_def)

lemma run_attempt_events:
  "\<forall>ev \<in> set (snd (run_attempt env query route n)). event_attempt ev = Some n"
proof -
  have m: "\<forall>ev \<in> set (snd (bind_comp (kickoff env query (Ran_mcp n))
               (\<lambda>mcp_result. ret [(''MCP'', mcp_result)]))). event_attempt ev = Some n"
    by (intro events_bind events_kickoff events_ret) simp
  have r: "\<forall>ev \<in> set (snd (bind_comp (kickoff env query (Ran_rag n))
               (\<lambda>rag_result. ret (x @ [(''RAG'', rag_result)])))). event_attempt ev = Some n" for x
    by (intro events_bind events_kickoff events_ret) simp
  have ew: "\<forall>ev \<in> set (snd (execute_workers env query route n)). event_attempt ev = Some n"
    unfolding execute_workers_def
    by (intro events_bind) (simp_all add: m r ret_def)
  have sy: "\<forall>ev \<in> set (snd (synthesize env query n ws)). event_attempt ev = Some n" for ws
    unfolding synthesize_def by (auto intro!: events_kickoff events_ret)
  show ?thesis
    unfolding run_attempt_def
    by (intro events_bind ew sy events_kickoff events_ret) simp
qed

lemma attempt_loop_bounds:
  "attempt_loop env query route attempt = (out, t) \<Longrightarrow>
     (\<forall>ev \<in> set t. \<exists>n. event_attempt ev = Some n \<and> attempt \<le> n \<and> n \<le> max_attempts) \<and>
     (\<forall>answer k. out = Inr (Some answer, k) \<longrightarrow> attempt \<le> k \<and> k \<le> max_attempts)"
proof (induction env query route attempt arbitrary: out t rule: attempt_loop.induct)
  case (1 env query route attempt)
  show ?case
  proof (cases "attempt \<le> max_attempts")
    case False
    with "1.prems" show ?thesis by (auto simp: attempt_loop_exit)
  next
    case True
    obtain o1 t1 where ra: "run_attempt env query route attempt = (o1, t1)"
      by (cases "run_attempt env query route attempt")
    have ev1: "\<forall>ev \<in> set t1. event_attempt ev = Some attempt"
      using run_attempt_events[of env query route attempt] ra by simp
    show ?thesis
    proof (cases o1)
      case (Inl e)
      with True ra "1.prems" ev1 show ?thesis by (auto simp: attempt_loop_raise)
    next
      case (Inr p)
      obtain current_answer validation where p: "p = (current_answer, validation)" by (cases p)
      note ra' = ra[unfolded Inr p]
      show ?thesis
      proof (cases "map_of validation ''status'' = Some ''ACCEPT''")
        case acc: True
        with True ra' "1.prems" ev1 show ?thesis by (auto simp: attempt_loop_accept)
      next
        case rej: False
        let ?next = "case map_of validation ''next_agent'' of Some next_agent \<Rightarrow> next_agent | None \<Rightarrow> ''BOTH''"
        obtain r t' where l: "attempt_loop env query ?next (attempt + 1) = (r, t')"
          by (cases "attempt_loop env query ?next (attempt + 1)")
        have ih: "(\<forall>ev \<in> set t'. \<exists>n. event_attempt ev = Some n \<and> attempt + 1 \<le> n \<and> n \<le> max_attempts) \<and>
            (\<forall>answer k. r = Inr (Some answer, k) \<longrightarrow> attempt + 1 \<le> k \<and> k \<le> max_attempts)"
          using "1.IH"[OF True ra[symmetric] Inr p[symmetric] rej l] .
        have eq: "out = r" "t = t1 @ t'"
          using attempt_loop_retry[OF True ra' rej] l "1.prems" by simp_all
        show ?thesis
          unfolding eq using ih ev1 True by fastforce
      qed
    qed
  qed
qed




lemma try_body_started:
  assumes "person_tools env = None" and "bank_tools env = None"
    and "routing_kickoff env query = Inr raw"
  shows "try_body env query =
     (fst (attempt_loop env query (parse_routing_decision raw) 1),
      [Open_person_tools, Open_bank_tools, Ran_routing] @
      snd (attempt_loop env query (parse_routing_decision raw) 1))"
  using assms by (simp add: try_body_def kickoff_reply)

lemma try_body_cases:
  obtains (raised) e t where "try_body env query = (Inl e, t)"
      "set t \<subseteq> {Open_person_tools, Open_bank_tools, Ran_routing}"
  | (started) raw where "routing_kickoff env query = Inr raw"
      "try_body env query =
         (fst (attempt_loop env query (parse_routing_decision raw) 1),
          [Open_person_tools, Open_bank_tools, Ran_routing] @
          snd (attempt_loop env query (parse_routing_decision raw) 1))"
proof (cases "person_tools env")
  case (Some e)
  then have "try_body env query = (Inl e, [Open_person_tools])"
    by (simp add: try_body_def kickoff_reply)
  then show ?thesis using raised by simp
next
  case pn: None
  show ?thesis
  proof (cases "bank_tools env")
    case (Some e)
    with pn have "try_body env query = (Inl e, [Open_person_tools, Open_bank_tools])"
      by (simp add: try_body_def kickoff_reply)
    then show ?thesis using raised by simp
  next
    case bn: None
    show ?thesis
    proof (cases "routing_kickoff env query")
      case (Inl e)
      with pn bn have "try_body env query = (Inl e, [Open_person_tools, Open_bank_tools, Ran_routing])"
        by (simp add: try_body_def kickoff_reply)
      then show ?thesis using raised by simp
    next
      case (Inr raw)
      from try_body_started[OF pn bn Inr] Inr show ?thesis by (rule started[rotated])
    qed
  qed
qed

lemma try_body_bounds:
  assumes "try_body env query = (out, t)"
  shows "(\<forall>ev \<in> set t. \<forall>n. event_attempt ev = Some n \<longrightarrow> 1 \<le> n \<and> n \<le> max_attempts) \<and>
         (\<forall>answer k. out = Inr (Some answer, k) \<longrightarrow> 1 \<le> k \<and> k \<le> max_attempts)"
proof (cases rule: try_body_cases[of env query])
  case (raised e t')
  with assms have eq: "out = Inl e" "t = t'" by simp_all
  have "event_attempt ev = None" if "ev \<in> set t'" for ev
  proof -
    from that raised(2) have "ev \<in> {Open_person_tools, Open_bank_tools, Ran_routing}"
      by (rule subsetD[rotated])
    then show ?thesis by auto
  qed
  then show ?thesis unfolding eq by simp
next
  case (started raw)
  obtain r tl where l: "attempt_loop env query (parse_routing_decision raw) 1 = (r, tl)"
    by (cases "attempt_loop env query (parse_routing_decision raw) 1")
  note b = attempt_loop_bounds[OF l]
  from started(2) assms l have eq: "out = r" "t = [Open_person_tools, Open_bank_tools, Ran_routing] @ tl"
    by simp_all
  from b have b1: "\<forall>ev \<in> set tl. \<forall>n. event_attempt ev = Some n \<longrightarrow> 1 \<le> n \<and> n \<le> max_attempts"
    by auto
  from b have b2: "\<forall>answer k. r = Inr (Some answer, k) \<longrightarrow> 1 \<le> k \<and> k \<le> max_attempts"
    by blast
  show ?thesis unfolding eq using b1 b2 by simp
qed

lemma snd_process_query: "snd (process_query env query) = snd (try_body env query)"
  by (simp add: process_query_def split: prod.splits sum.splits)

lemma upto_1_max: "[1..max_attempts] = [1, 2, 3]"
  unfolding max_attempts_def by code_simp

text \<open>
  C3. \<open>max_attempts\<close> is 3. In every run every call of the loop is made in an attempt
  numbered 1 to 3, and the \<open>attempts\<close> the caller is given, when given, is between 1 and
  3. (The variable \<open>attempt\<close> itself is 4 when the loop is left after the third RETRY;
  no call is made with it and the result reports \<open>max_attempts\<close>.) When no call raises
  and every verdict is RETRY, the loop ends after validating in attempts 1, 2 and 3
  exactly, and the result is \<open>success = False\<close> with the explanatory error and
  \<open>attempts = 3\<close>.
\<close>

theorem attempts_never_exceed_max_attempts:
  "max_attempts = 3 \<and>
   (\<forall>ev \<in> set (snd (process_query env query)).
      \<forall>n. event_attempt ev = Some n \<longrightarrow> 1 \<le> n \<and> n \<le> max_attempts) \<and>
   (\<forall>v. map_of (fst (process_query env query)) ''attempts'' = Some v \<longrightarrow>
      (\<exists>n. v = PyInt n \<and> 1 \<le> n \<and> n \<le> max_attempts)) \<and>
   (always_retry env query \<longrightarrow>
      fst (process_query env query) =
        [(''success'', PyBool False), (''query'', PyStr query),
         (''error'', PyStr ''Could not generate satisfactory answer after maximum attempts''),
         (''attempts'', PyInt 3), (''pattern'', PyStr ''supervisor_multi_agent'')] \<and>
      validated (snd (process_query env query)) = [1, 2, 3])"
proof (intro conjI impI)
  show "max_attempts = 3" by (simp add: max_attempts_def)
next
  obtain out t where tb: "try_body env query = (out, t)" by (cases "try_body env query")
  note b = try_body_bounds[OF tb]
  show "\<forall>ev \<in> set (snd (process_query env query)).
      \<forall>n. event_attempt ev = Some n \<longrightarrow> 1 \<le> n \<and> n \<le> max_attempts"
    unfolding snd_process_query tb using b by simp
  show "\<forall>v. map_of (fst (process_query env query)) ''attempts'' = Some v \<longrightarrow>
      (\<exists>n. v = PyInt n \<and> 1 \<le> n \<and> n \<le> max_attempts)"
  proof (cases out)
    case (Inl e)
    with tb show ?thesis by (simp add: process_query_def)
  next
    case (Inr p)
    obtain final_answer k where p: "p = (final_answer, k)" by (cases p)
    show ?thesis
    proof (cases "truthy final_answer")
      case False
      with tb Inr p show ?thesis by (simp add: process_query_def max_attempts_def)
    next
      case True
      then obtain answer where "final_answer = Some answer"
        by (cases final_answer) (simp_all add: truthy_def)
      with b Inr p have "1 \<le> k \<and> k \<le> max_attempts" by simp
      with tb Inr p True show ?thesis by (simp add: process_query_def)
    qed
  qed
next
  assume ar: "always_retry env query"
  then obtain raw where st: "person_tools env = None" "bank_tools env = None"
      "routing_kickoff env query = Inr raw"
    by (auto simp: always_retry_def)
  from ar have "\<forall>n. 1 \<le> n \<and> n \<le> max_attempts \<longrightarrow> answers_retry env query n"
    by (simp add: always_retry_def)
  from attempt_loop_always_retry[OF this, of "parse_routing_decision raw"] obtain tl where
    l: "attempt_loop env query (parse_routing_decision raw) 1 = (Inr (None, max_attempts + 1), tl)"
    and v: "validated tl = [1..max_attempts]"
    by (auto simp: max_attempts_def)
  have tb: "try_body env query =
      (Inr (None, max_attempts + 1), [Open_person_tools, Open_bank_tools, Ran_routing] @ tl)"
    using try_body_started[OF st] l by simp
  show "fst (process_query env query) =
        [(''success'', PyBool False), (''query'', PyStr query),
         (''error'', PyStr ''Could not generate satisfactory answer after maximum attempts''),
         (''attempts'', PyInt 3), (''pattern'', PyStr ''supervisor_multi_agent'')]"
    by (simp add: process_query_def tb truthy_def max_attempts_def)
  show "validated (snd (process_query env query)) = [1, 2, 3]"
    unfolding snd_process_query tb using v by (simp add: upto_1_max)
qed

theorem attempts_never_exceed_max_attempts_witness:
  "always_retry env_always_retry ''What is the policy number?'' \<and>
   fst (process_query env_always_retry ''What is the policy number?'') =
     [(''success'', PyBool False), (''query'', PyStr ''What is the policy number?''),
      (''error'', PyStr ''Could not generate satisfactory answer after maximum attempts''),
      (''attempts'', PyInt 3), (''pattern'', PyStr ''supervisor_multi_agent'')] \<and>
   validated (snd (process_query env_always_retry ''What is the policy number?'')) = [1, 2, 3]"
proof -
  have v: "parse_validation_result ''RETRY_WITH_MCP'' = [(''status'', ''RETRY''), (''next_agent'', ''MCP'')]"
    by code_simp
  have h: "always_retry env_always_retry ''What is the policy number?''"
    by (simp add: always_retry_def answers_retry_def env_always_retry_def v)
  show ?thesis
    using h attempts_never_exceed_max_attempts[of env_always_retry "''What is the policy number?''"]
    by blast
qed

lemma process_query_accepted:
  assumes "try_body env query = (Inr (Some answer, k), t)" and "answer \<noteq> []"
  shows "process_query env query =
     ([(''success'', PyBool True), (''query'', PyStr query), (''result'', PyStr answer),
       (''attempts'', PyInt k), (''pattern'', PyStr ''supervisor_multi_agent'')], t)"
  using assms by (simp add: process_query_def truthy_def)

text \<open>
  C4. The claim asks that an ACCEPT verdict returns the candidate answer with
  \<open>success = True\<close> and the attempts used. The program tests \<open>if final_answer:\<close>, so an
  accepted answer that is the empty string is reported as a failure after "maximum
  attempts", with \<open>attempts = 3\<close>, although one attempt was made and accepted.
\<close>

theorem accepted_empty_answer_is_reported_as_failure:
  "map_of (parse_validation_result ''ACCEPT'') ''status'' = Some ''ACCEPT'' \<and>
   process_query env_empty_answer ''Who is Jane?'' =
     ([(''success'', PyBool False), (''query'', PyStr ''Who is Jane?''),
       (''error'', PyStr ''Could not generate satisfactory answer after maximum attempts''),
       (''attempts'', PyInt 3), (''pattern'', PyStr ''supervisor_multi_agent'')],
      [Open_person_tools, Open_bank_tools, Ran_routing, Ran_mcp 1, Ran_validation 1 ''''])"
  by code_simp

text \<open>
  C5, as stated, fails: with route BOTH and a document worker that raises, no synthesis
  and no validation is run, and the caller gets the error of the worker.
\<close>

theorem worker_error_is_not_captured:
  "process_query env_rag_raises ''Show Jane and her insurance'' =
     ([(''success'', PyBool False), (''query'', PyStr ''Show Jane and her insurance''),
       (''error'', PyStr ''vector store unreachable'')],
      [Open_person_tools, Open_bank_tools, Ran_routing, Ran_mcp 1, Ran_rag 1])"
  by code_simp

text \<open>
  C5, amended. Nothing captures the failure of a single worker: when the kickoff of a
  worker raises, in whatever attempt, that call is the last call of the run (no synthesis,
  no validation and no further attempt follow) and \<open>process_query\<close> returns
  \<open>success = False\<close> with the query and the message of the exception.
\<close>

theorem worker_error_ends_the_query:
  assumes "ev \<in> set (snd (process_query env query))"
    and "ev = Ran_mcp n \<or> ev = Ran_rag n"
    and "reply env query ev = Inl e"
  shows "fst (process_query env query) =
           [(''success'', PyBool False), (''query'', PyStr query), (''error'', PyStr e)] \<and>
         last (snd (process_query env query)) = ev"
proof -
  obtain r tr where pq: "process_query env query = (r, tr)" by (cases "process_query env query")
  from assms(1) pq have mem: "ev \<in> set tr" by simp
  from process_query_sound[OF pq] show ?thesis
  proof
    assume "\<exists>e'. r = [(''success'', PyBool False), (''query'', PyStr query), (''error'', PyStr e')] \<and>
              tr \<noteq> [] \<and> reply env query (last tr) = Inl e' \<and> calls_ok env query (butlast tr)"
    then obtain e' where r: "r = [(''success'', PyBool False), (''query'', PyStr query), (''error'', PyStr e')]"
      and ne: "tr \<noteq> []" and la: "reply env query (last tr) = Inl e'"
      and ok: "calls_ok env query (butlast tr)" by blast
    have "ev \<notin> set (butlast tr)" using ok assms(3) by (auto simp: calls_ok_def)
    moreover have "tr = butlast tr @ [last tr]" using ne by simp
    ultimately have "ev = last tr" using mem by (metis Un_iff empty_iff insert_iff list.set(1) list.set(2) set_append)
    with la assms(3) r pq show ?thesis by simp
  next
    assume "map_of r ''attempts'' \<noteq> None \<and> calls_ok env query tr"
    with mem assms(3) show ?thesis by (auto simp: calls_ok_def)
  qed
qed

theorem worker_error_ends_the_query_witness:
  "Ran_rag 1 \<in> set (snd (process_query env_rag_raises ''Show Jane and her insurance'')) \<and>
   reply env_rag_raises ''Show Jane and her insurance'' (Ran_rag 1) = Inl ''vector store unreachable'' \<and>
   fst (process_query env_rag_raises ''Show Jane and her insurance'') =
     [(''success'', PyBool False), (''query'', PyStr ''Show Jane and her insurance''),
      (''error'', PyStr ''vector store unreachable'')] \<and>
   last (snd (process_query env_rag_raises ''Show Jane and her insurance'')) = Ran_rag 1"
proof -
  have m: "Ran_rag 1 \<in> set (snd (process_query env_rag_raises ''Show Jane and her insurance''))"
    by code_simp
  have r: "reply env_rag_raises ''Show Jane and her insurance'' (Ran_rag 1) = Inl ''vector store unreachable''"
    by (simp add: env_rag_raises_def)
  show ?thesis
    using m r worker_error_ends_the_query[OF m _ r, of 1] by simp
qed




section \<open>Facts about the record store\<close>

lemma structured_fail [simp]:
  "structured conn ([(''success'', PyBool False), (''error'', PyStr e)], conn)"
  by (simp add: structured_def)

lemma structured_ok: "map_of d ''success'' = Some (PyBool True) \<Longrightarrow> structured conn (d, conn')"
  by (simp add: structured_def)

lemma structured_Inr_fail [simp]:
  "structured conn (except_error conn (Inr ([(''success'', PyBool False), (''error'', PyStr e)], conn)))"
  by (simp add: except_error_def)

lemma structured_Inr_ok:
  "map_of d ''success'' = Some (PyBool True) \<Longrightarrow> structured conn (except_error conn (Inr (d, conn')))"
  by (simp add: except_error_def structured_ok)

lemma structured_bind:
  "(\<And>x. m = Inr x \<Longrightarrow> structured conn (except_error conn (f x))) \<Longrightarrow>
   structured conn (except_error conn (bind_exn m f))"
  by (cases m) (simp_all add: bind_exn_def except_error_def)

lemma structured_create_person: "structured conn (create_person conn name age email)"
  by (cases "insert_person conn name age email")
     (auto simp: create_person_def intro: structured_ok)

lemma structured_get_person: "structured conn (get_person conn person_id)"
  unfolding get_person_def
  by (auto simp: Let_def split: option.split list.split prod.split
        intro!: structured_bind structured_Inr_ok)

lemma structured_list_persons: "structured conn (list_persons conn)"
  unfolding list_persons_def
  by (auto simp: Let_def split: option.split list.split prod.split
        intro!: structured_bind structured_Inr_ok)

lemma structured_search_person_by_name: "structured conn (search_person_by_name conn name)"
  unfolding search_person_by_name_def
  by (auto simp: Let_def split: option.split list.split prod.split
        intro!: structured_bind structured_Inr_ok)

lemma structured_update_person: "structured conn (update_person conn person_id name age email)"
  unfolding update_person_def
  by (auto simp: Let_def split: option.split list.split prod.split
        intro!: structured_bind structured_Inr_ok)

lemma structured_delete_person: "structured conn (delete_person conn person_id)"
  unfolding delete_person_def
  by (auto simp: Let_def split: option.split list.split prod.split
        intro!: structured_bind structured_Inr_ok)

lemma structured_create_bank_account: "structured conn (create_bank_account conn person_id bank_name balance)"
  unfolding create_bank_account_def
  by (auto simp: Let_def split: option.split list.split prod.split
        intro!: structured_bind structured_Inr_ok)

lemma structured_get_bank_account: "structured conn (get_bank_account conn account_id)"
  unfolding get_bank_account_def
  by (auto simp: Let_def split: option.split list.split prod.split
        intro!: structured_bind structured_Inr_ok)

lemma structured_list_bank_accounts: "structured conn (list_bank_accounts conn)"
  unfolding list_bank_accounts_def
  by (auto simp: Let_def split: option.split list.split prod.split
        intro!: structured_bind structured_Inr_ok)

lemma structured_get_accounts_by_person: "structured conn (get_accounts_by_person conn person_id)"
  unfolding get_accounts_by_person_def
  by (auto simp: Let_def split: option.split list.split prod.split
        intro!: structured_bind structured_Inr_ok)

lemma structured_update_bank_account: "structured conn (update_bank_account conn account_id bank_name balance)"
  unfolding update_bank_account_def
  by (auto simp: Let_def split: option.split list.split prod.split
        intro!: structured_bind structured_Inr_ok)

lemma structured_delete_bank_account: "structured conn (delete_bank_account conn account_id)"
  unfolding delete_bank_account_def
  by (auto simp: Let_def split: option.split list.split prod.split
        intro!: structured_bind structured_Inr_ok)

lemma structured_get_person_with_accounts: "structured conn (get_person_with_accounts conn person_id)"
  unfolding get_person_with_accounts_def
  by (auto simp: Let_def split: option.split list.split prod.split
        intro!: structured_bind structured_Inr_ok)

lemma structured_call_tool: "structured conn (call_tool conn c)"
  by (cases c)
     (simp_all add: structured_create_person structured_get_person structured_list_persons
        structured_search_person_by_name structured_update_person structured_delete_person
        structured_create_bank_account structured_get_bank_account structured_list_bank_accounts
        structured_get_accounts_by_person structured_update_bank_account
        structured_delete_bank_account structured_get_person_with_accounts)

lemma fetchone_map: "fetchone (map f rows) = map_option f (fetchone rows)"
  by (cases rows) simp_all

lemma filter_map_same_key:
  "(\<And>row. P (f row) = P row) \<Longrightarrow> filter P (map f rows) = map f (filter P rows)"
  by (induction rows) simp_all

lemma update_person_outcome:
  assumes "person_by_id conn person_id = Some current"
  shows "(map_of (fst (update_person conn person_id name age email)) ''success'' = Some (PyBool False) \<and>
          snd (update_person conn person_id name age email) = conn) \<or>
         (map_of (fst (update_person conn person_id name age email)) ''success'' = Some (PyBool True) \<and>
          person_by_id (snd (update_person conn person_id name age email)) person_id =
            Some (current\<lparr>name_col := or_else name (name_col current),
                          age_col := (case age of Some a \<Rightarrow> a | None \<Rightarrow> age_col current),
                          email_col := or_else email (email_col current)\<rparr>))"
proof (cases "sqlite_int person_id")
  case False
  then show ?thesis
    by (simp add: update_person_def select_persons_by_id_def bind_exn_def except_error_def)
next
  case True
  let ?name = "or_else name (name_col current)"
  let ?age = "case age of Some a \<Rightarrow> a | None \<Rightarrow> age_col current"
  let ?email = "or_else email (email_col current)"
  have sel: "select_persons_by_id conn person_id =
      Inr (filter (\<lambda>row. id_col row = person_id) (persons conn))"
    using True by (simp add: select_persons_by_id_def)
  have cur: "fetchone (filter (\<lambda>row. id_col row = person_id) (persons conn)) = Some current"
    using assms by (simp add: person_by_id_def)
  have up: "update_person conn person_id name age email =
      except_error conn
        (bind_exn (update_persons conn ?name ?age ?email person_id) (\<lambda>conn'.
           Inr ([(''success'', PyBool True),
                 (''person'', PyDict [(''id'', PyInt person_id), (''name'', PyStr ?name),
                                      (''age'', PyInt ?age), (''email'', PyStr ?email)]),
                 (''message'', PyStr (''Person '' @ ?name @ '' updated successfully''))],
                conn')))"
    by (simp add: update_person_def sel cur bind_exn_def Let_def)
  show ?thesis
  proof (cases "update_persons conn ?name ?age ?email person_id")
    case (Inl e)
    then show ?thesis by (simp add: up bind_exn_def except_error_def)
  next
    case (Inr conn')
    let ?f = "\<lambda>row. if id_col row = person_id
                      then row\<lparr>name_col := ?name, age_col := ?age, email_col := ?email\<rparr> else row"
    from Inr have c: "conn' = conn\<lparr>persons := map ?f (persons conn)\<rparr>"
      by (auto simp: update_persons_def split: if_splits)
    have "filter (\<lambda>row. id_col row = person_id) (map ?f (persons conn)) =
          map ?f (filter (\<lambda>row. id_col row = person_id) (persons conn))"
      by (rule filter_map_same_key) simp
    then have "person_by_id conn' person_id = map_option ?f (Some current)"
      unfolding c person_by_id_def using cur by (simp add: fetchone_map)
    moreover have "id_col current = person_id"
    proof -
      from cur have "current \<in> set (filter (\<lambda>row. id_col row = person_id) (persons conn))"
        by (cases "filter (\<lambda>row. id_col row = person_id) (persons conn)") auto
      then show ?thesis by simp
    qed
    ultimately have "person_by_id conn' person_id =
        Some (current\<lparr>name_col := ?name, age_col := ?age, email_col := ?email\<rparr>)" by simp
    then show ?thesis using Inr by (simp add: up bind_exn_def except_error_def)
  qed
qed

lemma update_bank_account_outcome:
  assumes "account_by_id conn account_id = Some current"
  shows "(map_of (fst (update_bank_account conn account_id bank_name balance)) ''success'' = Some (PyBool False) \<and>
          snd (update_bank_account conn account_id bank_name balance) = conn) \<or>
         (map_of (fst (update_bank_account conn account_id bank_name balance)) ''success'' = Some (PyBool True) \<and>
          account_by_id (snd (update_bank_account conn account_id bank_name balance)) account_id =
            Some (current\<lparr>bankName_col := or_else bank_name (bankName_col current),
                          balance_col := (case balance of Some b \<Rightarrow> b | None \<Rightarrow> balance_col current)\<rparr>))"
proof (cases "sqlite_int account_id")
  case False
  then show ?thesis
    by (simp add: update_bank_account_def select_accounts_by_id_def bind_exn_def except_error_def)
next
  case True
  let ?bank_name = "or_else bank_name (bankName_col current)"
  let ?balance = "case balance of Some b \<Rightarrow> b | None \<Rightarrow> balance_col current"
  let ?f = "\<lambda>row. if accountId_col row = account_id
                    then row\<lparr>bankName_col := ?bank_name, balance_col := ?balance\<rparr> else row"
  have sel: "select_accounts_by_id conn account_id =
      Inr (filter (\<lambda>row. accountId_col row = account_id) (bank_accounts conn))"
    using True by (simp add: select_accounts_by_id_def)
  have cur: "fetchone (filter (\<lambda>row. accountId_col row = account_id) (bank_accounts conn)) = Some current"
    using assms by (simp add: account_by_id_def)
  have upd: "update_accounts conn ?bank_name ?balance account_id =
      Inr (conn\<lparr>bank_accounts := map ?f (bank_accounts conn)\<rparr>)"
    using True by (simp add: update_accounts_def)
  have up: "update_bank_account conn account_id bank_name balance =
      ([(''success'', PyBool True),
        (''account'', PyDict [(''accountId'', PyInt account_id),
                              (''personId'', PyInt (personId_col current)),
                              (''bankName'', PyStr ?bank_name),
                              (''balance'', PyFloat ?balance)]),
        (''message'', PyStr (''Bank account '' @ str_int account_id @ '' updated successfully''))],
       conn\<lparr>bank_accounts := map ?f (bank_accounts conn)\<rparr>)"
    by (simp add: update_bank_account_def sel cur upd bind_exn_def except_error_def Let_def)
  have "filter (\<lambda>row. accountId_col row = account_id) (map ?f (bank_accounts conn)) =
        map ?f (filter (\<lambda>row. accountId_col row = account_id) (bank_accounts conn))"
    by (rule filter_map_same_key) simp
  then have "account_by_id (conn\<lparr>bank_accounts := map ?f (bank_accounts conn)\<rparr>) account_id =
      map_option ?f (Some current)"
    unfolding account_by_id_def using cur by (simp add: fetchone_map)
  moreover have "accountId_col current = account_id"
  proof -
    from cur have "current \<in> set (filter (\<lambda>row. accountId_col row = account_id) (bank_accounts conn))"
      by (cases "filter (\<lambda>row. accountId_col row = account_id) (bank_accounts conn)") auto
    then show ?thesis by simp
  qed
  ultimately show ?thesis by (simp add: up)
qed

lemma or_else_absent: "x = None \<or> x = Some [] \<Longrightarrow> or_else x y = y"
  by (auto simp: or_else_def)

lemma initialize_db_foreign_keys: "foreign_keys (initialize_db file) = False"
  by (simp add: initialize_db_def)

lemma delete_person_without_foreign_keys:
  "foreign_keys conn = False \<Longrightarrow>
   bank_accounts (snd (delete_person conn person_id)) = bank_accounts conn"
  by (simp add: delete_person_def delete_persons_def select_persons_by_id_def bind_exn_def
        except_error_def split: option.split)

text \<open>
  C7. The claim (and the comment in \<open>delete_person\<close>, and the schema's
  \<open>ON DELETE CASCADE\<close>) say that deleting a person deletes the person's accounts. On
  the connection the program opens the cascade is never enforced: after creating a
  person with an account and deleting the person, the person is gone and the account
  is still stored, referring to an id that no longer exists.
\<close>

theorem delete_person_leaves_orphaned_accounts:
  "call_tools (initialize_db empty_store)
     [Create_person ''Jane'' 30 ''jane@x.com'', Create_bank_account 1 ''HDFC'' 100,
      Delete_person 1, Get_person 1, Get_bank_account 1] =
   ([[(''success'', PyBool True),
      (''person'', PyDict [(''id'', PyInt 1), (''name'', PyStr ''Jane''), (''age'', PyInt 30),
                           (''email'', PyStr ''jane@x.com'')]),
      (''message'', PyStr ''Person Jane created successfully with ID 1'')],
     [(''success'', PyBool True),
      (''account'', PyDict [(''accountId'', PyInt 1), (''personId'', PyInt 1),
                            (''bankName'', PyStr ''HDFC''), (''balance'', PyFloat 100)]),
      (''message'', PyStr ''Bank account created successfully with ID 1 for Jane'')],
     [(''success'', PyBool True), (''message'', PyStr ''Person Jane deleted successfully'')],
     [(''success'', PyBool False), (''error'', PyStr ''Person not found'')],
     [(''success'', PyBool True),
      (''account'', PyDict [(''accountId'', PyInt 1), (''personId'', PyInt 1),
                            (''bankName'', PyStr ''HDFC''), (''balance'', PyFloat 100)])]],
    \<lparr>persons = [],
     bank_accounts =
       [\<lparr>accountId_col = 1, personId_col = 1, bankName_col = ''HDFC'', balance_col = 100\<rparr>],
     persons_seq = 1, bank_accounts_seq = 1, foreign_keys = False\<rparr>)"
  by code_simp

text \<open>
  C8. Every tool, on every store and every input, returns a dictionary (it never
  raises: \<open>call_tool\<close> is a total function into results) whose \<open>success\<close> is a
  boolean; when \<open>success\<close> is \<open>False\<close> the dictionary has an \<open>error\<close> string and the store
  is unchanged.
\<close>

theorem every_tool_returns_a_structured_result:
  "(map_of (fst (call_tool conn c)) ''success'' = Some (PyBool True) \<or>
    map_of (fst (call_tool conn c)) ''success'' = Some (PyBool False)) \<and>
   (map_of (fst (call_tool conn c)) ''success'' = Some (PyBool False) \<longrightarrow>
      (\<exists>e. map_of (fst (call_tool conn c)) ''error'' = Some (PyStr e)) \<and>
      snd (call_tool conn c) = conn)"
  using structured_call_tool[of conn c] unfolding structured_def by auto

theorem every_tool_returns_a_structured_result_witness:
  "map_of (fst (call_tool example_db (Create_person ''Joan'' 25 ''jane@x.com''))) ''success'' =
     Some (PyBool False) \<and>
   map_of (fst (call_tool example_db (Create_person ''Joan'' 25 ''jane@x.com''))) ''error'' =
     Some (PyStr ''Email already exists'') \<and>
   snd (call_tool example_db (Create_person ''Joan'' 25 ''jane@x.com'')) = example_db \<and>
   map_of (fst (call_tool example_db (Delete_bank_account 9))) ''error'' =
     Some (PyStr ''Bank account not found'') \<and>
   snd (call_tool example_db (Delete_bank_account 9)) = example_db"
proof -
  have a: "map_of (fst (call_tool example_db (Create_person ''Joan'' 25 ''jane@x.com''))) ''success'' =
     Some (PyBool False)" by code_simp
  have b: "map_of (fst (call_tool example_db (Create_person ''Joan'' 25 ''jane@x.com''))) ''error'' =
     Some (PyStr ''Email already exists'')" by code_simp
  have c: "map_of (fst (call_tool example_db (Delete_bank_account 9))) ''success'' =
     Some (PyBool False)" by code_simp
  have d: "map_of (fst (call_tool example_db (Delete_bank_account 9))) ''error'' =
     Some (PyStr ''Bank account not found'')" by code_simp
  show ?thesis
    using a b c d
      every_tool_returns_a_structured_result[of example_db "Create_person ''Joan'' 25 ''jane@x.com''"]
      every_tool_returns_a_structured_result[of example_db "Delete_bank_account 9"]
    by simp
qed

text \<open>
  C9. For a stored person, \<open>update_person\<close> leaves the name unchanged when \<open>name\<close> is
  omitted or empty, the age unchanged when \<open>age\<close> is omitted, the email unchanged when
  \<open>email\<close> is omitted or empty; an update with \<open>age = 0\<close> that succeeds stores the age 0.
  The same holds for a stored account, \<open>bank_name\<close> and \<open>balance\<close>.
\<close>

theorem update_keeps_omitted_fields:
  "(person_by_id conn person_id = Some current \<longrightarrow>
      (\<exists>updated.
         person_by_id (snd (update_person conn person_id name age email)) person_id = Some updated \<and>
         (name = None \<or> name = Some '''' \<longrightarrow> name_col updated = name_col current) \<and>
         (age = None \<longrightarrow> age_col updated = age_col current) \<and>
         (email = None \<or> email = Some '''' \<longrightarrow> email_col updated = email_col current) \<and>
         (age = Some 0 \<and>
          map_of (fst (update_person conn person_id name age email)) ''success'' = Some (PyBool True) \<longrightarrow>
            age_col updated = 0))) \<and>
   (account_by_id conn account_id = Some account \<longrightarrow>
      (\<exists>updated.
         account_by_id (snd (update_bank_account conn account_id bank_name balance)) account_id =
           Some updated \<and>
         (bank_name = None \<or> bank_name = Some '''' \<longrightarrow> bankName_col updated = bankName_col account) \<and>
         (balance = None \<longrightarrow> balance_col updated = balance_col account) \<and>
         (balance = Some 0 \<and>
          map_of (fst (update_bank_account conn account_id bank_name balance)) ''success'' =
            Some (PyBool True) \<longrightarrow>
            balance_col updated = 0)))"
proof (intro conjI impI)
  assume cur: "person_by_id conn person_id = Some current"
  let ?r = "update_person conn person_id name age email"
  from update_person_outcome[OF cur, of name age email]
  show "\<exists>updated. person_by_id (snd ?r) person_id = Some updated \<and>
         (name = None \<or> name = Some '''' \<longrightarrow> name_col updated = name_col current) \<and>
         (age = None \<longrightarrow> age_col updated = age_col current) \<and>
         (email = None \<or> email = Some '''' \<longrightarrow> email_col updated = email_col current) \<and>
         (age = Some 0 \<and> map_of (fst ?r) ''success'' = Some (PyBool True) \<longrightarrow> age_col updated = 0)"
  proof
    assume "map_of (fst ?r) ''success'' = Some (PyBool False) \<and> snd ?r = conn"
    then show ?thesis using cur by simp
  next
    assume "map_of (fst ?r) ''success'' = Some (PyBool True) \<and>
      person_by_id (snd ?r) person_id =
        Some (current\<lparr>name_col := or_else name (name_col current),
                      age_col := (case age of Some a \<Rightarrow> a | None \<Rightarrow> age_col current),
                      email_col := or_else email (email_col current)\<rparr>)"
    then show ?thesis by (auto simp: or_else_absent)
  qed
next
  assume cur: "account_by_id conn account_id = Some account"
  let ?r = "update_bank_account conn account_id bank_name balance"
  from update_bank_account_outcome[OF cur, of bank_name balance]
  show "\<exists>updated. account_by_id (snd ?r) account_id = Some updated \<and>
         (bank_name = None \<or> bank_name = Some '''' \<longrightarrow> bankName_col updated = bankName_col account) \<and>
         (balance = None \<longrightarrow> balance_col updated = balance_col account) \<and>
         (balance = Some 0 \<and> map_of (fst ?r) ''success'' = Some (PyBool True) \<longrightarrow>
            balance_col updated = 0)"
  proof
    assume "map_of (fst ?r) ''success'' = Some (PyBool False) \<and> snd ?r = conn"
    then show ?thesis using cur by simp
  next
    assume "map_of (fst ?r) ''success'' = Some (PyBool True) \<and>
      account_by_id (snd ?r) account_id =
        Some (account\<lparr>bankName_col := or_else bank_name (bankName_col account),
                      balance_col := (case balance of Some b \<Rightarrow> b | None \<Rightarrow> balance_col account)\<rparr>)"
    then show ?thesis by (auto simp: or_else_absent)
  qed
qed

theorem update_keeps_omitted_fields_witness:
  "person_by_id example_db 1 =
     Some \<lparr>id_col = 1, name_col = ''Jane'', age_col = 30, email_col = ''jane@x.com''\<rparr> \<and>
   map_of (fst (update_person example_db 1 (Some '''') (Some 0) None)) ''success'' = Some (PyBool True) \<and>
   person_by_id (snd (update_person example_db 1 (Some '''') (Some 0) None)) 1 =
     Some \<lparr>id_col = 1, name_col = ''Jane'', age_col = 0, email_col = ''jane@x.com''\<rparr> \<and>
   account_by_id example_db 1 =
     Some \<lparr>accountId_col = 1, personId_col = 1, bankName_col = ''HDFC'', balance_col = 100\<rparr> \<and>
   map_of (fst (update_bank_account example_db 1 (Some '''') (Some 0))) ''success'' = Some (PyBool True) \<and>
   account_by_id (snd (update_bank_account example_db 1 (Some '''') (Some 0))) 1 =
     Some \<lparr>accountId_col = 1, personId_col = 1, bankName_col = ''HDFC'', balance_col = 0\<rparr>"
proof -
  let ?p = "\<lparr>id_col = 1, name_col = ''Jane'', age_col = 30, email_col = ''jane@x.com''\<rparr>"
  let ?a = "\<lparr>accountId_col = 1, personId_col = 1, bankName_col = ''HDFC'', balance_col = 100\<rparr>"
  have p: "person_by_id example_db 1 = Some ?p" by code_simp
  have a: "account_by_id example_db 1 = Some ?a" by code_simp
  have sp: "map_of (fst (update_person example_db 1 (Some '''') (Some 0) None)) ''success'' = Some (PyBool True)"
    by code_simp
  have sa: "map_of (fst (update_bank_account example_db 1 (Some '''') (Some 0))) ''success'' = Some (PyBool True)"
    by code_simp
  have up: "person_by_id (snd (update_person example_db 1 (Some '''') (Some 0) None)) 1 =
     Some \<lparr>id_col = 1, name_col = ''Jane'', age_col = 0, email_col = ''jane@x.com''\<rparr>"
    by code_simp
  have ua: "account_by_id (snd (update_bank_account example_db 1 (Some '''') (Some 0))) 1 =
     Some \<lparr>accountId_col = 1, personId_col = 1, bankName_col = ''HDFC'', balance_col = 0\<rparr>"
    by code_simp
  from update_keeps_omitted_fields[of example_db 1 ?p "Some ''''" "Some 0" None 1 ?a "Some ''''" "Some 0"]
  show ?thesis
    using p a sp sa up ua by simp
qed

text \<open>
  C10. \<open>search_person_by_name\<close> compares names after lowercasing both. It returns one
  person, the first row of the table whose name matches, whatever rows follow it; when
  no row matches it returns \<open>success = False\<close> and the error
  \<open>No person named <name> found\<close>.
\<close>

theorem search_person_by_name_first_match:
  "(\<forall>before row after.
      persons conn = before @ row # after \<and> lower (name_col row) = lower name \<and>
      (\<forall>r \<in> set before. lower (name_col r) \<noteq> lower name) \<longrightarrow>
      search_person_by_name conn name =
        ([(''success'', PyBool True),
          (''person'', PyDict [(''id'', PyInt (id_col row)), (''name'', PyStr (name_col row)),
                               (''age'', PyInt (age_col row)), (''email'', PyStr (email_col row))])],
         conn)) \<and>
   ((\<forall>r \<in> set (persons conn). lower (name_col r) \<noteq> lower name) \<longrightarrow>
      search_person_by_name conn name =
        ([(''success'', PyBool False),
          (''error'', PyStr (''No person named '' @ name @ '' found''))], conn))"
proof (intro conjI allI impI)
  fix before row after
  assume h: "persons conn = before @ row # after \<and> lower (name_col row) = lower name \<and>
      (\<forall>r \<in> set before. lower (name_col r) \<noteq> lower name)"
  then have "filter (\<lambda>row. lower (name_col row) = lower name) before = []"
    by (auto simp: filter_empty_conv)
  with h have "select_persons_by_name conn name =
      row # filter (\<lambda>row. lower (name_col row) = lower name) after"
    by (simp add: select_persons_by_name_def)
  then show "search_person_by_name conn name =
        ([(''success'', PyBool True),
          (''person'', PyDict [(''id'', PyInt (id_col row)), (''name'', PyStr (name_col row)),
                               (''age'', PyInt (age_col row)), (''email'', PyStr (email_col row))])],
         conn)"
    by (simp add: search_person_by_name_def except_error_def person_dict_def)
next
  assume "\<forall>r \<in> set (persons conn). lower (name_col r) \<noteq> lower name"
  then have "select_persons_by_name conn name = []"
    by (auto simp: select_persons_by_name_def filter_empty_conv)
  then show "search_person_by_name conn name =
        ([(''success'', PyBool False),
          (''error'', PyStr (''No person named '' @ name @ '' found''))], conn)"
    by (simp add: search_person_by_name_def except_error_def)
qed

theorem search_person_by_name_first_match_witness:
  "lower ''Jane'' = lower ''jAnE'' \<and> lower ''JANE'' = lower ''jAnE'' \<and>
   search_person_by_name example_db ''jAnE'' =
     ([(''success'', PyBool True),
       (''person'', PyDict [(''id'', PyInt 1), (''name'', PyStr ''Jane''),
                            (''age'', PyInt 30), (''email'', PyStr ''jane@x.com'')])],
      example_db) \<and>
   search_person_by_name example_db ''Bob'' =
     ([(''success'', PyBool False), (''error'', PyStr ''No person named Bob found'')], example_db)"
proof -
  let ?jane = "\<lparr>id_col = 1, name_col = ''Jane'', age_col = 30, email_col = ''jane@x.com''\<rparr>"
  let ?JANE = "\<lparr>id_col = 2, name_col = ''JANE'', age_col = 41, email_col = ''jane2@x.com''\<rparr>"
  have l1: "lower ''Jane'' = lower ''jAnE''" by code_simp
  have l2: "lower ''JANE'' = lower ''jAnE''" by code_simp
  have l3: "lower ''Jane'' \<noteq> lower ''Bob''" by code_simp
  have l4: "lower ''JANE'' \<noteq> lower ''Bob''" by code_simp
  have ps: "persons example_db = [] @ ?jane # [?JANE]" by (simp add: example_db_def)
  have none: "\<forall>r \<in> set (persons example_db). lower (name_col r) \<noteq> lower ''Bob''"
    using l3 l4 by (simp add: example_db_def)
  note t = search_person_by_name_first_match[of example_db]
  have a: "search_person_by_name example_db ''jAnE'' =
     ([(''success'', PyBool True),
       (''person'', PyDict [(''id'', PyInt 1), (''name'', PyStr ''Jane''),
                            (''age'', PyInt 30), (''email'', PyStr ''jane@x.com'')])],
      example_db)"
    using t[of "''jAnE''", THEN conjunct1, rule_format, of "[]" ?jane "[?JANE]"] ps l1 by simp
  have b: "search_person_by_name example_db ''Bob'' =
     ([(''success'', PyBool False), (''error'', PyStr ''No person named Bob found'')], example_db)"
    using t[of "''Bob''", THEN conjunct2] none by simp
  show ?thesis using l1 l2 a b by simp
qed

end
